theory Spec2Isabelle
  imports
    Complex_Main
    "HOL-Library.Char_ord"
    "HOL-Library.List_Lexorder"
    "HOL-Library.Product_Lexorder"
begin

section \<open>Data model\<close>

text \<open>
  The repository has two programs that share five stores: the batch pipeline of
  \<^verbatim>\<open>src/pipeline/flow.py\<close> and the recommendation API of \<^verbatim>\<open>src/api/main.py\<close>,
  both on the connection helpers of \<^verbatim>\<open>src/utils/db.py\<close>.

  Modelling decisions, all of them about what lies outside the repository:
  \<^item> Python floats are reals. The program does no arithmetic on them: vectors are produced
    by the sentence encoder and compared inside Milvus, and both are parameters here.
  \<^item> The sentence encoder is a function \<open>string \<Rightarrow> float list option\<close>; \<open>None\<close> is
    Python's \<open>None\<close>, \<open>Some []\<close> an array of size 0.
  \<^item> The Milvus nearest-neighbour search is a parameter with no assumed property.
  \<^item> Pydantic's reading of a string as a float (lax mode) is a parameter,
    \<open>float_of_str\<close>.
  \<^item> MongoDB, Milvus, Neo4j and SQLite are reachable; the connection retry loop of
    \<open>get_milvus_connection\<close> succeeds at its first attempt. Milvus refuses an insert
    that does not fit the schema of the collection (\<open>VARCHAR\<close> of at most 100 bytes,
    vectors of \<open>EMBEDDING_DIM\<close> components) and does not check that primary keys are
    unique. Redis may fail on a read or on a write (two flags of the environment).
  \<^item> MongoDB's generated \<open>_id\<close> fields and Neo4j's internal ids are left out.
  \<^item> A missing \<open>user_analytics\<close> table is the empty table: every access to SQLite goes
    through \<open>get_sqlite_conn\<close>, which creates the table when it is missing.
  \<^item> A cached value is the recommendation list itself; \<open>json.dumps\<close> followed by
    \<open>json.loads\<close> is the identity on lists of dictionaries of strings and integers.
  \<^item> A log entry is the level and the message as the source writes it, f-string
    placeholders of numbers left unfilled, quoted names and pictographs left out.
\<close>

type_synonym float = real

text \<open>What \<open>json.load\<close> returns; an object is a dictionary with string keys.\<close>

datatype json =
    JNull
  | JBool bool
  | JInt int
  | JFloat float
  | JStr string
  | JList "json list"
  | JObj "string \<Rightarrow> json option"

type_synonym raw = "string \<rightharpoonup> json"

text \<open>\<^verbatim>\<open>class Conversation(BaseModel)\<close> of \<^verbatim>\<open>src/db/schemas.py\<close>.\<close>

record conversation =
  message_id :: string
  user_id :: string
  campaign_id :: string
  timestamp :: string
  intent :: string
  message :: string
  embedding :: "float list option"

text \<open>
  Pydantic validates in lax mode: a \<open>str\<close> field takes a string only; a \<open>float\<close> takes
  a float, an integer, a boolean or a string that reads as a float.
\<close>

definition str_field :: "raw \<Rightarrow> string \<Rightarrow> string option" where
  "str_field item k = (case item k of Some (JStr s) \<Rightarrow> Some s | _ \<Rightarrow> None)"

definition float_item :: "(string \<Rightarrow> float option) \<Rightarrow> json \<Rightarrow> float option" where
  "float_item float_of_str v =
     (case v of
        JFloat x \<Rightarrow> Some x
      | JInt n \<Rightarrow> Some (of_int n)
      | JBool b \<Rightarrow> Some (if b then 1 else 0)
      | JStr s \<Rightarrow> float_of_str s
      | _ \<Rightarrow> None)"

definition embedding_field ::
  "(string \<Rightarrow> float option) \<Rightarrow> raw \<Rightarrow> float list option option" where
  "embedding_field float_of_str item =
     (case item ''embedding'' of
        None \<Rightarrow> Some None
      | Some JNull \<Rightarrow> Some None
      | Some (JList vs) \<Rightarrow> map_option Some (those (map (float_item float_of_str) vs))
      | Some _ \<Rightarrow> None)"

text \<open>
  \<open>Conversation(**item)\<close> for a dictionary \<open>item\<close>; \<open>None\<close> is Pydantic's
  \<open>ValidationError\<close>. Keys the schema does not name are ignored.
\<close>

definition Conversation :: "(string \<Rightarrow> float option) \<Rightarrow> raw \<Rightarrow> conversation option" where
  "Conversation float_of_str item =
     Option.bind (str_field item ''message_id'') (\<lambda>mid.
     Option.bind (str_field item ''user_id'') (\<lambda>uid.
     Option.bind (str_field item ''campaign_id'') (\<lambda>cid.
     Option.bind (str_field item ''timestamp'') (\<lambda>ts.
     Option.bind (str_field item ''intent'') (\<lambda>it.
     Option.bind (str_field item ''message'') (\<lambda>msg.
     Option.bind (embedding_field float_of_str item) (\<lambda>emb.
       Some \<lparr>message_id = mid, user_id = uid, campaign_id = cid, timestamp = ts,
             intent = it, message = msg, embedding = emb\<rparr>)))))))"

text \<open>A MongoDB document: \<open>model_dump(exclude={'embedding'})\<close>.\<close>

record document =
  doc_message_id :: string
  doc_user_id :: string
  doc_campaign_id :: string
  doc_timestamp :: string
  doc_intent :: string
  doc_message :: string

definition model_dump_exclude_embedding :: "conversation \<Rightarrow> document" where
  "model_dump_exclude_embedding d =
     \<lparr>doc_message_id = message_id d, doc_user_id = user_id d,
      doc_campaign_id = campaign_id d, doc_timestamp = timestamp d,
      doc_intent = intent d, doc_message = message d\<rparr>"

text \<open>A Milvus entity: \<open>(message_id, user_id, embedding)\<close>.\<close>

type_synonym entry = "string \<times> string \<times> float list"

text \<open>The Neo4j graph: labelled nodes, and relationships with their timestamp property.\<close>

datatype node = User string | Campaign string | Intent string

datatype rel =
    PARTICIPATED_IN string string string
  | EXPRESSED string string string

record graph =
  nodes :: "node list"
  rels :: "rel list"

text \<open>A row of \<open>user_analytics\<close>: \<open>(user_id, campaign_id, engagement_count)\<close>.\<close>

type_synonym row = "string \<times> string \<times> int"

record ranked_item =
  item_campaign_id :: string
  ranking_score :: int

record recommendation = ranked_item +
  reason :: string

record response =
  resp_user_id :: string
  recommendations :: "recommendation list"
  retrieval_source :: string

datatype level = INFO | WARNING | ERROR

datatype db_op =
    MongoDeleteMany
  | MongoInsertMany nat
  | MongoFindOne string
  | MilvusDropCollection
  | MilvusCreateCollection
  | MilvusCreateIndex
  | MilvusLoad
  | MilvusInsert nat
  | MilvusFlush
  | MilvusSearch nat
  | Neo4jDeleteAll
  | Neo4jMerge string string string string
  | Neo4jMatch
  | SqliteCreateTableIfNotExists
  | SqliteDelete
  | SqliteAppend nat
  | SqliteCommit
  | SqliteSelect
  | SqliteClose
  | RedisGet string
  | RedisSet string nat

datatype error =
    TypeError
  | AttributeError
  | UnicodeDecodeError
  | PermissionError
  | IsADirectoryError
  | MilvusException
  | RedisError
  | HTTPException nat

text \<open>
  The five stores, the sequence of operations sent to them (\<open>trace\<close>) and the log.
\<close>

record world =
  mongo :: "document list"
  milvus :: "entry list option"
  neo4j :: graph
  sqlite :: "row list"
  redis :: "string \<rightharpoonup> recommendation list \<times> nat"
  trace :: "db_op list"
  logged :: "(level \<times> string) list"

definition add_log :: "level \<Rightarrow> string \<Rightarrow> world \<Rightarrow> world" where
  "add_log l s w = w\<lparr>logged := logged w @ [(l, s)]\<rparr>"

definition add_op :: "db_op \<Rightarrow> world \<Rightarrow> world" where
  "add_op x w = w\<lparr>trace := trace w @ [x]\<rparr>"

section \<open>Connections: \<^verbatim>\<open>src/utils/db.py\<close> and \<^verbatim>\<open>src/utils/config.py\<close>\<close>

definition EMBEDDING_DIM :: nat where
  "EMBEDDING_DIM = 1024"

definition RECOMMENDATION_CACHE_TTL_SECONDS :: nat where
  "RECOMMENDATION_CACHE_TTL_SECONDS = 300"

text \<open>
  \<open>get_milvus_connection\<close>: connect, drop the collection when it exists, create it anew,
  index it and load it. The handle it returns is the collection of the world.
\<close>

definition get_milvus_connection :: "world \<Rightarrow> world" where
  "get_milvus_connection w =
     (let w1 = add_log INFO ''Attempting to connect to Milvus ({i+1}/{retries})...'' w;
          w2 = add_log INFO ''Milvus connection successful!'' w1;
          w3 = (case milvus w2 of
                  Some old \<Rightarrow>
                    add_log INFO ''Collection dropped.''
                      (add_op MilvusDropCollection
                        (add_log WARNING
                           ''Dropping existing Milvus collection to ensure schema is correct.''
                           w2)
                       \<lparr>milvus := None\<rparr>)
                | None \<Rightarrow> w2);
          w4 = add_op MilvusCreateCollection
                 (add_log INFO ''Creating new collection with dim={config.EMBEDDING_DIM}.'' w3)
               \<lparr>milvus := Some []\<rparr>;
          w5 = add_log INFO ''Index created.''
                 (add_op MilvusCreateIndex
                   (add_log INFO ''Creating index for collection...'' w4));
          w6 = add_log INFO ''Milvus collection loaded.''
                 (add_op MilvusLoad
                   (add_log INFO ''Loading Milvus collection...'' w5))
      in w6)"

definition get_sqlite_conn :: "world \<Rightarrow> world" where
  "get_sqlite_conn w = add_op SqliteCreateTableIfNotExists w"

section \<open>The ingestion pipeline: \<^verbatim>\<open>src/pipeline/flow.py\<close>\<close>

text \<open>
  What \<open>open\<close> and \<open>json.load\<close> make of the data file: the two exceptions
  \<open>extract_raw_data\<close> catches, any other exception (a file that is not UTF-8, that may
  not be read, that is a directory), or the parsed value.
\<close>

datatype source_file =
    FileNotFoundError
  | JSONDecodeError
  | OtherError error
  | Parsed json

text \<open>Python's \<open>len\<close> is defined on lists, dictionaries and strings; \<open>not x\<close>.\<close>

definition has_len :: "json \<Rightarrow> bool" where
  "has_len v = (case v of JList xs \<Rightarrow> True | JObj m \<Rightarrow> True | JStr s \<Rightarrow> True | _ \<Rightarrow> False)"

definition falsy :: "json \<Rightarrow> bool" where
  "falsy v =
     (case v of
        JNull \<Rightarrow> True
      | JBool b \<Rightarrow> \<not> b
      | JInt n \<Rightarrow> n = 0
      | JFloat x \<Rightarrow> x = 0
      | JStr s \<Rightarrow> s = []
      | JList xs \<Rightarrow> xs = []
      | JObj m \<Rightarrow> m = Map.empty)"

text \<open>
  \<open>extract_raw_data\<close>. The \<open>len(data)\<close> of the log message is inside the \<open>try\<close>, and
  its \<open>TypeError\<close> on a number, a boolean or \<open>null\<close> is not among the exceptions caught.
\<close>

definition extract_raw_data :: "source_file \<Rightarrow> world \<Rightarrow> (error + json) \<times> world" where
  "extract_raw_data file w =
     (let w1 = add_log INFO ''Extracting raw data from data/sample_conversations.json...'' w
      in case file of
           Parsed data \<Rightarrow>
             if has_len data then
               (Inr data,
                add_log INFO ''Successfully extracted {len(data)} records from file.'' w1)
             else (Inl TypeError, w1)
         | FileNotFoundError \<Rightarrow>
             (Inr (JList []),
              add_log ERROR ''Data file not found at {file_path}. Did you create it?'' w1)
         | JSONDecodeError \<Rightarrow>
             (Inr (JList []),
              add_log ERROR
                ''Error decoding JSON from {file_path}. Check for syntax errors.'' w1)
         | OtherError e \<Rightarrow> (Inl e, w1))"

text \<open>
  The loop of \<open>transform_and_validate\<close>, \<open>valid_data\<close> its accumulator. \<open>**item\<close> on
  an item that is not a dictionary raises \<open>TypeError\<close>, which the loop does not catch.
\<close>

fun transform_loop ::
  "(string \<Rightarrow> float option) \<Rightarrow> (string \<Rightarrow> float list option) \<Rightarrow> json list
     \<Rightarrow> conversation list \<Rightarrow> world \<Rightarrow> (error + conversation list) \<times> world" where
  "transform_loop float_of_str encode [] valid_data w = (Inr valid_data, w)"
| "transform_loop float_of_str encode (item # rest) valid_data w =
     (case item of
        JObj obj \<Rightarrow>
          (case Conversation float_of_str obj of
             None \<Rightarrow>
               transform_loop float_of_str encode rest valid_data
                 (add_log WARNING ''Invalid data skipped: {item.get(message_id)}.'' w)
           | Some convo \<Rightarrow>
               (case encode (message convo) of
                  None \<Rightarrow>
                    transform_loop float_of_str encode rest valid_data
                      (add_log WARNING
                         (''Empty embedding for message_id: '' @ message_id convo) w)
                | Some e \<Rightarrow>
                    if e = [] then
                      transform_loop float_of_str encode rest valid_data
                        (add_log WARNING
                           (''Empty embedding for message_id: '' @ message_id convo) w)
                    else
                      transform_loop float_of_str encode rest
                        (valid_data @ [convo\<lparr>embedding := Some e\<rparr>]) w))
      | _ \<Rightarrow> (Inl TypeError, w))"

text \<open>
  \<open>transform_and_validate\<close>. \<open>for item in data\<close> runs over the elements of a list, the
  keys of a dictionary and the characters of a string; keys and characters are strings,
  so the first of them raises the \<open>TypeError\<close> of \<open>**item\<close>.
\<close>

definition transform_and_validate ::
  "(string \<Rightarrow> float option) \<Rightarrow> (string \<Rightarrow> float list option) \<Rightarrow> json \<Rightarrow> world
     \<Rightarrow> (error + conversation list) \<times> world" where
  "transform_and_validate float_of_str encode data w =
     (if \<not> has_len data then (Inl TypeError, w)
      else
        (let w1 = add_log INFO ''Transforming {len(data)} records...'' w
         in case data of
              JList items \<Rightarrow>
                (case transform_loop float_of_str encode items [] w1 of
                   (Inl e, w2) \<Rightarrow> (Inl e, w2)
                 | (Inr valid_data, w2) \<Rightarrow>
                     (Inr valid_data,
                      add_log INFO
                        ''Successfully transformed {len(valid_data)} records.'' w2))
            | _ \<Rightarrow>
                if falsy data then
                  (Inr [],
                   add_log INFO ''Successfully transformed {len(valid_data)} records.'' w1)
                else (Inl TypeError, w1)))"

text \<open>Cypher's \<open>MERGE\<close>: create the element unless an equal one exists.\<close>

definition MERGE :: "'a \<Rightarrow> 'a list \<Rightarrow> 'a list" where
  "MERGE x xs = (if x \<in> set xs then xs else xs @ [x])"

definition merge_record :: "conversation \<Rightarrow> graph \<Rightarrow> graph" where
  "merge_record d g =
     \<lparr>nodes = MERGE (Intent (intent d))
                (MERGE (Campaign (campaign_id d))
                  (MERGE (User (user_id d)) (nodes g))),
      rels = MERGE (EXPRESSED (user_id d) (timestamp d) (intent d))
               (MERGE (PARTICIPATED_IN (user_id d) (timestamp d) (campaign_id d)) (rels g))\<rparr>"

text \<open>The \<open>for d in data: session.run(...)\<close> loop of the Neo4j load.\<close>

fun neo4j_merge_all :: "conversation list \<Rightarrow> world \<Rightarrow> world" where
  "neo4j_merge_all [] w = w"
| "neo4j_merge_all (d # ds) w =
     neo4j_merge_all ds
       (add_op (Neo4jMerge (user_id d) (campaign_id d) (intent d) (timestamp d))
          (w\<lparr>neo4j := merge_record d (neo4j w)\<rparr>))"

text \<open>
  \<open>df.groupby(['user_id', 'campaign_id']).size().reset_index(name='engagement_count')\<close>:
  one row per distinct pair, the pairs in ascending order (pandas sorts group keys).
\<close>

definition groupby_size :: "conversation list \<Rightarrow> row list" where
  "groupby_size data =
     map (\<lambda>(u, c). (u, c, int (length (filter (\<lambda>d. user_id d = u \<and> campaign_id d = c) data))))
       (sort (remdups (map (\<lambda>d. (user_id d, campaign_id d)) data)))"

text \<open>
  \<open>milvus.insert\<close> of the three columns into the collection \<open>get_milvus_connection\<close>
  created: \<open>message_id\<close> and \<open>user_id\<close> are \<open>VARCHAR\<close> with \<open>max_length=100\<close>,
  \<open>embedding\<close> is a \<open>FLOAT_VECTOR\<close> with \<open>dim=config.EMBEDDING_DIM\<close>. A batch with
  a longer id, a missing vector or a vector of another dimension is refused as a whole.
\<close>

definition fits_schema :: "conversation \<Rightarrow> bool" where
  "fits_schema d =
     (length (message_id d) \<le> 100 \<and> length (user_id d) \<le> 100
      \<and> (case embedding d of None \<Rightarrow> False | Some v \<Rightarrow> length v = EMBEDDING_DIM))"

definition milvus_rows :: "conversation list \<Rightarrow> entry list option" where
  "milvus_rows data =
     (case those (map embedding data) of
        None \<Rightarrow> None
      | Some vs \<Rightarrow>
          if list_all (\<lambda>s. length s \<le> 100) (map message_id data)
             \<and> list_all (\<lambda>s. length s \<le> 100) (map user_id data)
             \<and> list_all (\<lambda>v. length v = EMBEDDING_DIM) vs
          then Some (zip (map message_id data) (zip (map user_id data) vs))
          else None)"

text \<open>
  \<open>load_to_dbs\<close>. The four clients are obtained first, in the order MongoDB, Milvus,
  Neo4j, SQLite; \<open>insert_many\<close> raises \<open>TypeError\<close> on an empty list, and an insert
  that Milvus refuses raises \<open>MilvusException\<close> when MongoDB is already replaced. The
  result is the exception that ended the load, if any, and the world as the load left it.
\<close>

definition load_to_dbs :: "conversation list \<Rightarrow> world \<Rightarrow> error option \<times> world" where
  "load_to_dbs data w =
     (let w0 = add_log INFO ''Loading {len(data)} records into databases...'' w;
          w1 = get_milvus_connection w0;
          w2 = get_sqlite_conn w1;
          mongo_data = map model_dump_exclude_embedding data;
          w3 = add_op MongoDeleteMany (w2\<lparr>mongo := []\<rparr>)
      in if mongo_data = [] then (Some TypeError, w3)
         else
           let w4 = add_log INFO ''Loaded {len(mongo_data)} records to MongoDB.''
                      (add_op (MongoInsertMany (length mongo_data))
                         (w3\<lparr>mongo := mongo w3 @ mongo_data\<rparr>))
           in case (milvus_rows data, milvus w4) of
                (Some es, Some old) \<Rightarrow>
                  let w5 = add_op (MilvusInsert (length es)) (w4\<lparr>milvus := Some (old @ es)\<rparr>);
                      w6 = add_log INFO ''Loaded {len(milvus_data[0])} vectors to Milvus.''
                             (add_op MilvusFlush w5);
                      w7 = add_op Neo4jDeleteAll (w6\<lparr>neo4j := \<lparr>nodes = [], rels = []\<rparr>\<rparr>);
                      w8 = add_log INFO ''Loaded {len(data)} relationships to Neo4j.''
                             (neo4j_merge_all data w7);
                      analytics_df = groupby_size data;
                      w9 = add_op SqliteDelete (w8\<lparr>sqlite := []\<rparr>);
                      w10 = add_op (SqliteAppend (length analytics_df))
                              (w9\<lparr>sqlite := sqlite w9 @ analytics_df\<rparr>);
                      w11 = add_op SqliteClose (add_op SqliteCommit w10)
                  in (None, add_log INFO ''Loaded {len(analytics_df)} aggregates to SQLite.'' w11)
              | _ \<Rightarrow> (Some MilvusException, w4))"

text \<open>\<open>main_data_pipeline\<close>; an exception of a stage ends the run.\<close>

definition main_data_pipeline ::
  "(string \<Rightarrow> float option) \<Rightarrow> (string \<Rightarrow> float list option) \<Rightarrow> source_file \<Rightarrow> world
     \<Rightarrow> error option \<times> world" where
  "main_data_pipeline float_of_str encode file w =
     (let w0 = add_log INFO ''Pipeline starting...'' w
      in case extract_raw_data file w0 of
           (Inl e, w1) \<Rightarrow> (Some e, w1)
         | (Inr raw_data, w1) \<Rightarrow>
             if falsy raw_data then (None, add_log ERROR ''No raw data found. Exiting.'' w1)
             else
               (case transform_and_validate float_of_str encode raw_data w1 of
                  (Inl e, w2) \<Rightarrow> (Some e, w2)
                | (Inr transformed_data, w2) \<Rightarrow>
                    if transformed_data = [] then
                      (None, add_log ERROR ''No data survived transformation. Exiting.'' w2)
                    else
                      (case load_to_dbs transformed_data w2 of
                         (Some e, w3) \<Rightarrow> (Some e, w3)
                       | (None, w3) \<Rightarrow>
                           (None,
                            add_log INFO
                              ''Pipeline finished successfully. Total time: {latency:.2f}s''
                              w3))))"

section \<open>The recommendation API: \<^verbatim>\<open>src/api/main.py\<close>\<close>

text \<open>
  What a request finds around it: the sentence encoder of \<open>app_state\<close>, Milvus's search
  (query vector, stored entities and limit to the hits, nearest first) and whether
  Redis fails on \<open>get\<close> or on \<open>set\<close>.
\<close>

record env =
  model_encode :: "string \<Rightarrow> float list option"
  milvus_search :: "float list \<Rightarrow> entry list \<Rightarrow> nat \<Rightarrow> entry list"
  redis_get_fails :: bool
  redis_set_fails :: bool

text \<open>
  The start-up half of \<open>lifespan\<close>: the clients are obtained through the same helpers as
  in the pipeline, \<open>get_milvus_connection\<close> among them.
\<close>

definition lifespan :: "world \<Rightarrow> world" where
  "lifespan w =
     add_log INFO ''Connections and ML model loaded. API is ready.''
       (get_milvus_connection (add_log INFO ''API starting up...'' w))"

text \<open>
  \<open>get_user_query_vector\<close>: \<open>Inr None\<close> is the \<open>None\<close> of an unknown user; \<open>.tolist()\<close> on
  \<open>None\<close> raises \<open>AttributeError\<close>.
\<close>

definition get_user_query_vector ::
  "env \<Rightarrow> string \<Rightarrow> world \<Rightarrow> (error + float list option) \<times> world" where
  "get_user_query_vector e uid w =
     (let w1 = add_op (MongoFindOne uid) w
      in case find (\<lambda>d. doc_user_id d = uid) (mongo w1) of
           None \<Rightarrow> (Inr None, w1)
         | Some recent_message \<Rightarrow>
             (case model_encode e (doc_message recent_message) of
                None \<Rightarrow> (Inl AttributeError, w1)
              | Some query_vector \<Rightarrow> (Inr (Some query_vector), w1)))"

text \<open>
  \<open>search_similar_users\<close>: the user ids of the hits, duplicates removed
  (\<open>list(set(...))\<close>, whose order Python leaves open). A dropped collection makes the
  search raise.
\<close>

definition search_similar_users ::
  "env \<Rightarrow> float list \<Rightarrow> nat \<Rightarrow> world \<Rightarrow> (error + string list) \<times> world" where
  "search_similar_users e query_vector k w =
     (case milvus w of
        None \<Rightarrow> (Inl MilvusException, w)
      | Some entities \<Rightarrow>
          (let results = milvus_search e query_vector entities k;
               similar_user_ids = map (\<lambda>hit. fst (snd hit)) results
           in (Inr (remdups similar_user_ids), add_op (MilvusSearch k) w)))"

text \<open>
  \<open>fetch_campaigns_for_users\<close>:
  \<^verbatim>\<open>MATCH (u:User)-[:PARTICIPATED_IN]->(c:Campaign) WHERE u.id IN $user_ids
  RETURN DISTINCT c.id\<close>.
\<close>

definition fetch_campaigns_for_users :: "string list \<Rightarrow> world \<Rightarrow> string list \<times> world" where
  "fetch_campaigns_for_users user_ids w =
     (remdups
        (concat (map (\<lambda>r. case r of
                           PARTICIPATED_IN u ts c \<Rightarrow> if u \<in> set user_ids then [c] else []
                         | EXPRESSED u ts i \<Rightarrow> [])
                  (rels (neo4j w)))),
      add_op Neo4jMatch w)"

text \<open>
  The query of \<open>rank_campaigns_by_engagement\<close>:
  \<^verbatim>\<open>SELECT campaign_id, SUM(engagement_count) FROM user_analytics
  WHERE campaign_id IN (...) GROUP BY 1 ORDER BY 2 DESC\<close>.
  SQL leaves the order of equal sums open; SQLite sorts the groups by \<open>campaign_id\<close> and
  its sorter for \<open>DESC\<close> returns equal sums in descending \<open>campaign_id\<close>, which is the
  order here. The sums are unbounded integers: the overflow of SQLite's 64-bit \<open>SUM\<close> is
  out of reach of the counts the pipeline writes.
\<close>

definition total_engagement :: "row list \<Rightarrow> string \<Rightarrow> int" where
  "total_engagement table c = sum_list (map (\<lambda>r. snd (snd r)) (filter (\<lambda>r. fst (snd r) = c) table))"

definition select_ranked :: "string list \<Rightarrow> row list \<Rightarrow> (string \<times> int) list" where
  "select_ranked campaign_ids table =
     (let selected = filter (\<lambda>r. fst (snd r) \<in> set campaign_ids) table;
          groups = rev (sort (remdups (map (\<lambda>r. fst (snd r)) selected)))
      in sort_key (\<lambda>g. - snd g) (map (\<lambda>c. (c, total_engagement selected c)) groups))"

definition rank_campaigns_by_engagement ::
  "string list \<Rightarrow> world \<Rightarrow> ranked_item list \<times> world" where
  "rank_campaigns_by_engagement campaign_ids w =
     (let w1 = get_sqlite_conn w;
          results = select_ranked campaign_ids (sqlite w1);
          w2 = add_op SqliteClose (add_op SqliteSelect w1)
      in (map (\<lambda>row. \<lparr>item_campaign_id = fst row, ranking_score = snd row\<rparr>) results, w2))"

definition REASON :: string where
  "REASON = ''Recommended based on users with similar interests.''"

definition annotate :: "ranked_item \<Rightarrow> recommendation" where
  "annotate item =
     \<lparr>item_campaign_id = item_campaign_id item, ranking_score = ranking_score item,
      reason = REASON\<rparr>"

definition redis_get :: "env \<Rightarrow> string \<Rightarrow> world \<Rightarrow> (error + recommendation list option) \<times> world" where
  "redis_get e key w =
     (if redis_get_fails e then (Inl RedisError, w)
      else (Inr (map_option fst (redis w key)), add_op (RedisGet key) w))"

definition redis_set ::
  "env \<Rightarrow> string \<Rightarrow> recommendation list \<Rightarrow> nat \<Rightarrow> world \<Rightarrow> error option \<times> world" where
  "redis_set e key v ex w =
     (if redis_set_fails e then (Some RedisError, w)
      else (None, add_op (RedisSet key ex) (w\<lparr>redis := (redis w)(key \<mapsto> (v, ex))\<rparr>)))"

text \<open>
  \<open>get_recommendations\<close>, from the cache miss on (steps 2 to 4 of the handler).
\<close>

definition compute_recommendations ::
  "env \<Rightarrow> string \<Rightarrow> world \<Rightarrow> (error + response) \<times> world" where
  "compute_recommendations e uid w =
     (let w1 = add_log INFO (''Cache MISS for user '' @ uid @ ''. Computing...'') w
      in case get_user_query_vector e uid w1 of
           (Inl err, w2) \<Rightarrow> (Inl err, w2)
         | (Inr None, w2) \<Rightarrow> (Inl (HTTPException 404), w2)
         | (Inr (Some query_vector), w2) \<Rightarrow>
             if query_vector = [] then (Inl (HTTPException 404), w2)
             else
               (case search_similar_users e query_vector 5 w2 of
                  (Inl err, w3) \<Rightarrow> (Inl err, w3)
                | (Inr similar_user_ids, w3) \<Rightarrow>
                    (let w4 = add_log INFO ''Found similar users: {similar_user_ids}'' w3
                     in if similar_user_ids = [] then
                          (Inr \<lparr>resp_user_id = uid, recommendations = [],
                                retrieval_source = ''computed''\<rparr>,
                           add_log WARNING (''No similar users found for '' @ uid) w4)
                        else
                          (let (campaign_ids, w5) = fetch_campaigns_for_users similar_user_ids w4;
                               w6 = add_log INFO ''Found related campaigns: {campaign_ids}'' w5
                           in if campaign_ids = [] then
                                (Inr \<lparr>resp_user_id = uid, recommendations = [],
                                      retrieval_source = ''computed''\<rparr>,
                                 add_log WARNING
                                   (''No campaigns found for similar users of '' @ uid) w6)
                              else
                                (let (ranked_campaigns, w7) =
                                       rank_campaigns_by_engagement campaign_ids w6;
                                     w8 = add_log INFO ''Ranked campaigns: {ranked_campaigns}'' w7;
                                     final_recs = map annotate ranked_campaigns;
                                     w9 = (case redis_set e (''rec:'' @ uid) final_recs
                                                  RECOMMENDATION_CACHE_TTL_SECONDS w8 of
                                             (None, w') \<Rightarrow> w'
                                           | (Some err, w') \<Rightarrow>
                                               add_log WARNING
                                                 ''Redis cache write failed: {e}'' w')
                                 in (Inr \<lparr>resp_user_id = uid, recommendations = final_recs,
                                          retrieval_source = ''computed''\<rparr>, w9))))))"

text \<open>
  \<open>get_recommendations\<close>: the cache first; an exception of the read is logged and the
  request goes on as on a miss.
\<close>

definition get_recommendations ::
  "env \<Rightarrow> string \<Rightarrow> world \<Rightarrow> (error + response) \<times> world" where
  "get_recommendations e uid w =
     (let cache_key = ''rec:'' @ uid
      in case redis_get e cache_key w of
           (Inr (Some cached_result), w1) \<Rightarrow>
             (Inr \<lparr>resp_user_id = uid, recommendations = cached_result,
                   retrieval_source = ''cache''\<rparr>,
              add_log INFO (''Cache HIT for user '' @ uid) w1)
         | (Inr None, w1) \<Rightarrow> compute_recommendations e uid w1
         | (Inl err, w1) \<Rightarrow>
             compute_recommendations e uid
               (add_log WARNING ''Redis cache read failed: {e}'' w1))"

section \<open>Observations and example inputs\<close>

text \<open>The contents of the four stores the pipeline loads.\<close>

definition stores :: "world \<Rightarrow> document list \<times> entry list option \<times> graph \<times> row list" where
  "stores w = (mongo w, milvus w, neo4j w, sqlite w)"

text \<open>
  The scenario of the specification: two messages of user A and one of user B, all for
  campaign X, loaded into stores that hold nothing yet.
\<close>

definition mk_raw ::
  "string \<Rightarrow> string \<Rightarrow> string \<Rightarrow> string \<Rightarrow> string \<Rightarrow> string \<Rightarrow> raw" where
  "mk_raw mid uid cid ts it msg =
     map_of [(''message_id'', JStr mid), (''user_id'', JStr uid), (''campaign_id'', JStr cid),
             (''timestamp'', JStr ts), (''intent'', JStr it), (''message'', JStr msg)]"

definition ex_raw :: json where
  "ex_raw = JList [JObj (mk_raw ''m1'' ''A'' ''X'' ''t1'' ''buy'' ''hello''),
                   JObj (mk_raw ''m2'' ''A'' ''X'' ''t2'' ''ask'' ''price?''),
                   JObj (mk_raw ''m3'' ''B'' ''X'' ''t3'' ''buy'' ''hi'')]"

text \<open>
  An encoder that gives every message but the empty one the same vector of
  \<open>EMBEDDING_DIM\<close> components, and a reading of strings as floats that knows one string.
\<close>

definition ex_vector :: "float list" where
  "ex_vector = replicate EMBEDDING_DIM 1"

definition ex_encode :: "string \<Rightarrow> float list option" where
  "ex_encode s = (if s = [] then Some [] else Some ex_vector)"

definition ex_float_of_str :: "string \<Rightarrow> float option" where
  "ex_float_of_str s = (if s = ''1.5'' then Some (3 / 2) else None)"

definition ex_valid :: "conversation list" where
  "ex_valid =
     [\<lparr>message_id = ''m1'', user_id = ''A'', campaign_id = ''X'', timestamp = ''t1'',
       intent = ''buy'', message = ''hello'', embedding = Some ex_vector\<rparr>,
      \<lparr>message_id = ''m2'', user_id = ''A'', campaign_id = ''X'', timestamp = ''t2'',
       intent = ''ask'', message = ''price?'', embedding = Some ex_vector\<rparr>,
      \<lparr>message_id = ''m3'', user_id = ''B'', campaign_id = ''X'', timestamp = ''t3'',
       intent = ''buy'', message = ''hi'', embedding = Some ex_vector\<rparr>]"

definition empty_world :: world where
  "empty_world =
     \<lparr>mongo = [], milvus = None, neo4j = \<lparr>nodes = [], rels = []\<rparr>, sqlite = [],
      redis = Map.empty, trace = [], logged = []\<rparr>"

text \<open>The stores after the scenario's load, with an empty cache.\<close>

definition loaded_world :: world where
  "loaded_world =
     \<lparr>mongo = map model_dump_exclude_embedding ex_valid,
      milvus = Some [(''m1'', ''A'', ex_vector), (''m2'', ''A'', ex_vector),
                     (''m3'', ''B'', ex_vector)],
      neo4j = \<lparr>nodes = [User ''A'', Campaign ''X'', Intent ''buy'', Intent ''ask'', User ''B''],
               rels = [PARTICIPATED_IN ''A'' ''t1'' ''X'', EXPRESSED ''A'' ''t1'' ''buy'',
                       PARTICIPATED_IN ''A'' ''t2'' ''X'', EXPRESSED ''A'' ''t2'' ''ask'',
                       PARTICIPATED_IN ''B'' ''t3'' ''X'', EXPRESSED ''B'' ''t3'' ''buy'']\<rparr>,
      sqlite = [(''A'', ''X'', 2), (''B'', ''X'', 1)],
      redis = Map.empty, trace = [], logged = []\<rparr>"

text \<open>An environment whose search returns the first \<open>k\<close> entities and whose cache works.\<close>

definition ex_env :: env where
  "ex_env =
     \<lparr>model_encode = ex_encode, milvus_search = (\<lambda>q es k. take k es),
      redis_get_fails = False, redis_set_fails = False\<rparr>"

text \<open>A table with three campaigns, to rank two of them.\<close>

definition ranking_world :: world where
  "ranking_world =
     loaded_world\<lparr>sqlite := [(''A'', ''X'', 2), (''B'', ''X'', 1), (''A'', ''Y'', 5), (''C'', ''W'', 4)]\<rparr>"

text \<open>A document store whose only message is the empty string, which \<open>ex_encode\<close> embeds
  as the empty vector.\<close>

definition blank_world :: world where
  "blank_world =
     loaded_world\<lparr>mongo := [\<lparr>doc_message_id = ''m4'', doc_user_id = ''D'',
       doc_campaign_id = ''X'', doc_timestamp = ''t4'', doc_intent = ''buy'',
       doc_message = []\<rparr>]\<rparr>"

text \<open>
  A request for user B fills the cache; then a batch that holds only the records of user A
  is ingested.
\<close>

definition ex_raw_A :: json where
  "ex_raw_A = JList [JObj (mk_raw ''m1'' ''A'' ''X'' ''t1'' ''buy'' ''hello''),
                     JObj (mk_raw ''m2'' ''A'' ''X'' ''t2'' ''ask'' ''price?'')]"

definition stale_world :: world where
  "stale_world =
     snd (main_data_pipeline ex_float_of_str ex_encode (Parsed ex_raw_A)
            (snd (get_recommendations ex_env ''B'' loaded_world)))"

text \<open>
  Batches for the edges of the pipeline: one record whose message is empty; one record
  whose \<open>embedding\<close> field is a list of a numeric string and a boolean; one record whose
  \<open>message_id\<close> has 101 characters.
\<close>

definition ex_raw_blank :: json where
  "ex_raw_blank = JList [JObj (mk_raw ''m9'' ''C'' ''Y'' ''t9'' ''buy'' [])]"

definition ex_raw_lax :: json where
  "ex_raw_lax =
     JList [JObj ((mk_raw ''m5'' ''E'' ''Y'' ''t5'' ''buy'' ''hey'')
                    (''embedding'' \<mapsto> JList [JStr ''1.5'', JBool True]))]"

definition ex_raw_long :: json where
  "ex_raw_long = JList [JObj (mk_raw (replicate 101 CHR ''m'') ''F'' ''Y'' ''t6'' ''buy'' ''ho'')]"


section \<open>Basic facts about the helpers\<close>

lemma stores_add_log [simp]: "stores (add_log l s w) = stores w"
  by (simp add: stores_def add_log_def)

lemma stores_add_op [simp]: "stores (add_op x w) = stores w"
  by (simp add: stores_def add_op_def)

lemma trace_add_log [simp]: "trace (add_log l s w) = trace w"
  by (simp add: add_log_def)

lemma trace_add_op [simp]: "trace (add_op x w) = trace w @ [x]"
  by (simp add: add_op_def)

lemma redis_add_log [simp]: "redis (add_log l s w) = redis w"
  by (simp add: add_log_def)

lemma redis_add_op [simp]: "redis (add_op x w) = redis w"
  by (simp add: add_op_def)

lemma logged_add_log [simp]: "logged (add_log l s w) = logged w @ [(l, s)]"
  by (simp add: add_log_def)

lemma logged_add_op [simp]: "logged (add_op x w) = logged w"
  by (simp add: add_op_def)

text \<open>
  The validated list does not depend on the world; the loop only logs.
\<close>

lemma transform_loop_fst:
  "fst (transform_loop fs enc items acc w) = fst (transform_loop fs enc items acc w')"
  by (induction items arbitrary: acc w w') (auto split: option.splits json.splits)

lemma transform_loop_stores [simp]:
  "stores (snd (transform_loop fs enc items acc w)) = stores w"
  by (induction items arbitrary: acc w) (auto split: option.splits json.splits)

lemma transform_loop_trace [simp]:
  "trace (snd (transform_loop fs enc items acc w)) = trace w"
  by (induction items arbitrary: acc w) (auto split: option.splits json.splits)

lemma transform_loop_redis [simp]:
  "redis (snd (transform_loop fs enc items acc w)) = redis w"
  by (induction items arbitrary: acc w) (auto split: option.splits json.splits)

lemma neo4j_merge_all_neo4j:
  "neo4j (neo4j_merge_all data w) = fold merge_record data (neo4j w)"
  by (induction data arbitrary: w) (auto simp: add_op_def)

lemma neo4j_merge_all_trace:
  "trace (neo4j_merge_all data w) =
     trace w @ map (\<lambda>d. Neo4jMerge (user_id d) (campaign_id d) (intent d) (timestamp d)) data"
  by (induction data arbitrary: w) (auto simp: add_op_def)

lemma neo4j_merge_all_others [simp]:
  "mongo (neo4j_merge_all data w) = mongo w"
  "milvus (neo4j_merge_all data w) = milvus w"
  "sqlite (neo4j_merge_all data w) = sqlite w"
  "redis (neo4j_merge_all data w) = redis w"
  "logged (neo4j_merge_all data w) = logged w"
  by (induction data arbitrary: w) (auto simp: add_op_def)

lemma get_milvus_connection_fields [simp]:
  "mongo (get_milvus_connection w) = mongo w"
  "milvus (get_milvus_connection w) = Some []"
  "neo4j (get_milvus_connection w) = neo4j w"
  "sqlite (get_milvus_connection w) = sqlite w"
  "redis (get_milvus_connection w) = redis w"
  by (simp_all add: get_milvus_connection_def Let_def add_log_def add_op_def
      split: option.splits)

lemma get_milvus_connection_trace:
  "trace (get_milvus_connection w) =
     trace w @ (case milvus w of None \<Rightarrow> [] | Some old \<Rightarrow> [MilvusDropCollection])
       @ [MilvusCreateCollection, MilvusCreateIndex, MilvusLoad]"
  by (simp add: get_milvus_connection_def Let_def add_log_def add_op_def split: option.splits)

lemma get_sqlite_conn_fields [simp]:
  "mongo (get_sqlite_conn w) = mongo w"
  "milvus (get_sqlite_conn w) = milvus w"
  "neo4j (get_sqlite_conn w) = neo4j w"
  "sqlite (get_sqlite_conn w) = sqlite w"
  "redis (get_sqlite_conn w) = redis w"
  "logged (get_sqlite_conn w) = logged w"
  "trace (get_sqlite_conn w) = trace w @ [SqliteCreateTableIfNotExists]"
  by (simp_all add: get_sqlite_conn_def add_op_def)

lemma those_length: "those xs = Some ys \<Longrightarrow> length ys = length xs"
  by (induction xs arbitrary: ys) (auto split: option.splits)

lemma milvus_rows_length: "milvus_rows data = Some es \<Longrightarrow> length es = length data"
  by (auto simp: milvus_rows_def dest: those_length split: option.splits if_splits)

text \<open>Milvus takes a batch exactly when every record fits the schema of the collection.\<close>

lemma those_embedding:
  "those (map embedding data) =
     (if list_all (\<lambda>d. embedding d \<noteq> None) data
      then Some (map (\<lambda>d. the (embedding d)) data) else None)"
  by (induction data) (auto split: option.splits)

lemma milvus_rows_fits:
  "milvus_rows data \<noteq> None \<longleftrightarrow> list_all fits_schema data"
proof (cases "list_all (\<lambda>d. embedding d \<noteq> None) data")
  case True
  then have e: "\<exists>v. embedding d = Some v" if "d \<in> set data" for d
    using that by (auto simp: list_all_iff)
  have "milvus_rows data \<noteq> None \<longleftrightarrow>
        (\<forall>d\<in>set data. length (message_id d) \<le> 100 \<and> length (user_id d) \<le> 100
           \<and> length (the (embedding d)) = EMBEDDING_DIM)"
    using True unfolding milvus_rows_def those_embedding
    by (auto simp: list_all_iff)
  also have "\<dots> \<longleftrightarrow> (\<forall>d\<in>set data. fits_schema d)"
    using e by (fastforce simp: fits_schema_def)
  finally show ?thesis by (simp add: list_all_iff)
next
  case False
  then obtain d where "d \<in> set data" "embedding d = None"
    by (auto simp: list_all_iff)
  then have "\<not> fits_schema d" "d \<in> set data"
    by (simp_all add: fits_schema_def)
  then have "\<not> list_all fits_schema data"
    unfolding list_all_iff by blast
  then show ?thesis
    using False unfolding milvus_rows_def those_embedding by simp
qed

text \<open>What a load leaves in the stores, when Milvus refuses the batch and when it does not.\<close>

lemma load_to_dbs_refused:
  assumes "data \<noteq> []" "milvus_rows data = None"
  shows "fst (load_to_dbs data w) = Some MilvusException"
    and "mongo (snd (load_to_dbs data w)) = map model_dump_exclude_embedding data"
    and "milvus (snd (load_to_dbs data w)) = Some []"
    and "neo4j (snd (load_to_dbs data w)) = neo4j w"
    and "sqlite (snd (load_to_dbs data w)) = sqlite w"
    and "redis (snd (load_to_dbs data w)) = redis w"
  using assms by (simp_all add: load_to_dbs_def Let_def add_op_def add_log_def)

lemma load_to_dbs_ok:
  assumes "data \<noteq> []" "milvus_rows data = Some es"
  shows "fst (load_to_dbs data w) = None"
    and "mongo (snd (load_to_dbs data w)) = map model_dump_exclude_embedding data"
    and "milvus (snd (load_to_dbs data w)) = Some es"
    and "neo4j (snd (load_to_dbs data w)) = fold merge_record data \<lparr>nodes = [], rels = []\<rparr>"
    and "sqlite (snd (load_to_dbs data w)) = groupby_size data"
    and "redis (snd (load_to_dbs data w)) = redis w"
  using assms
  by (simp_all add: load_to_dbs_def Let_def add_op_def add_log_def neo4j_merge_all_neo4j)

lemma load_to_dbs_trace:
  assumes "data \<noteq> []" "milvus_rows data = Some es"
  shows "trace (snd (load_to_dbs data w)) =
     trace w @ (case milvus w of None \<Rightarrow> [] | Some old \<Rightarrow> [MilvusDropCollection])
       @ [MilvusCreateCollection, MilvusCreateIndex, MilvusLoad, SqliteCreateTableIfNotExists,
          MongoDeleteMany, MongoInsertMany (length data),
          MilvusInsert (length data), MilvusFlush, Neo4jDeleteAll]
       @ map (\<lambda>d. Neo4jMerge (user_id d) (campaign_id d) (intent d) (timestamp d)) data
       @ [SqliteDelete, SqliteAppend (length (groupby_size data)), SqliteCommit, SqliteClose]"
  using assms
  by (simp add: load_to_dbs_def Let_def add_op_def add_log_def neo4j_merge_all_trace
      get_milvus_connection_trace milvus_rows_length split: option.splits)

lemma load_to_dbs_stores:
  assumes "data \<noteq> []"
  shows "stores (snd (load_to_dbs data w)) =
     (map model_dump_exclude_embedding data,
      (case milvus_rows data of None \<Rightarrow> Some [] | Some es \<Rightarrow> Some es),
      (case milvus_rows data of None \<Rightarrow> neo4j w
         | Some es \<Rightarrow> fold merge_record data \<lparr>nodes = [], rels = []\<rparr>),
      (case milvus_rows data of None \<Rightarrow> sqlite w | Some es \<Rightarrow> groupby_size data))"
proof (cases "milvus_rows data")
  case None
  show ?thesis using load_to_dbs_refused [OF assms None, of w] None
    by (simp add: stores_def)
next
  case (Some es)
  show ?thesis using load_to_dbs_ok [OF assms Some, of w] Some
    by (simp add: stores_def)
qed

text \<open>The grouped counts.\<close>

lemma groupby_size_keys:
  "map (\<lambda>r. (fst r, fst (snd r))) (groupby_size data)
     = sort (remdups (map (\<lambda>d. (user_id d, campaign_id d)) data))"
  by (simp add: groupby_size_def split_def o_def)

lemma groupby_size_member:
  "(u, c, n) \<in> set (groupby_size data) \<longleftrightarrow>
     n = int (length (filter (\<lambda>d. user_id d = u \<and> campaign_id d = c) data)) \<and> 0 < n"
proof -
  have "(u, c) \<in> set (map (\<lambda>d. (user_id d, campaign_id d)) data)
        \<longleftrightarrow> 0 < length (filter (\<lambda>d. user_id d = u \<and> campaign_id d = c) data)"
    by (auto simp: filter_empty_conv)
  then show ?thesis
    by (auto simp: groupby_size_def)
qed

section \<open>The pipeline's stages and the stores\<close>

lemma transform_and_validate_fst_eq:
  "fst (transform_and_validate fs enc data w) =
     (case data of
        JList items \<Rightarrow> fst (transform_loop fs enc items [] w)
      | JObj m \<Rightarrow> if m = Map.empty then Inr [] else Inl TypeError
      | JStr s \<Rightarrow> if s = [] then Inr [] else Inl TypeError
      | _ \<Rightarrow> Inl TypeError)"
proof (cases data)
  case (JList items)
  let ?w1 = "add_log INFO ''Transforming {len(data)} records...'' w"
  obtain r w2 where t: "transform_loop fs enc items [] ?w1 = (r, w2)"
    by (cases "transform_loop fs enc items [] ?w1")
  have "r = fst (transform_loop fs enc items [] w)"
    using t transform_loop_fst [of fs enc items "[]" ?w1 w] by simp
  then show ?thesis
    using JList t by (simp add: transform_and_validate_def has_len_def Let_def split: sum.splits)
qed (simp_all add: transform_and_validate_def has_len_def falsy_def Let_def)

lemma transform_and_validate_fst:
  "fst (transform_and_validate fs enc data w) = fst (transform_and_validate fs enc data w')"
  using transform_loop_fst [of fs enc _ "[]" w w']
  by (simp add: transform_and_validate_fst_eq split: json.splits)

lemma transform_and_validate_snd [simp]:
  "stores (snd (transform_and_validate fs enc data w)) = stores w"
  "trace (snd (transform_and_validate fs enc data w)) = trace w"
  "redis (snd (transform_and_validate fs enc data w)) = redis w"
proof -
  let ?w1 = "add_log INFO ''Transforming {len(data)} records...'' w"
  have l: "stores (snd (transform_loop fs enc items [] ?w1)) = stores w
         \<and> trace (snd (transform_loop fs enc items [] ?w1)) = trace w
         \<and> redis (snd (transform_loop fs enc items [] ?w1)) = redis w" for items
    by simp
  have "stores (snd (transform_and_validate fs enc data w)) = stores w
      \<and> trace (snd (transform_and_validate fs enc data w)) = trace w
      \<and> redis (snd (transform_and_validate fs enc data w)) = redis w"
  proof (cases data)
    case (JList items)
    obtain r w2 where t: "transform_loop fs enc items [] ?w1 = (r, w2)"
      by (cases "transform_loop fs enc items [] ?w1")
    show ?thesis
      using JList t l [of items]
      by (simp add: transform_and_validate_def has_len_def Let_def split: sum.splits)
  qed (simp_all add: transform_and_validate_def has_len_def falsy_def Let_def)
  then show "stores (snd (transform_and_validate fs enc data w)) = stores w"
    "trace (snd (transform_and_validate fs enc data w)) = trace w"
    "redis (snd (transform_and_validate fs enc data w)) = redis w"
    by simp_all
qed

lemma transform_and_validate_falsy:
  "falsy data \<Longrightarrow> fst (transform_and_validate fs enc data w) \<noteq> Inr valid \<or> valid = []"
  by (auto simp: transform_and_validate_fst_eq falsy_def split: json.splits)

lemma extract_raw_data_snd [simp]:
  "stores (snd (extract_raw_data src w)) = stores w"
  "trace (snd (extract_raw_data src w)) = trace w"
  "redis (snd (extract_raw_data src w)) = redis w"
  by (simp_all add: extract_raw_data_def Let_def split: source_file.splits)

lemma extract_raw_data_fst:
  "fst (extract_raw_data src w) =
     (case src of
        Parsed data \<Rightarrow> if has_len data then Inr data else Inl TypeError
      | OtherError e \<Rightarrow> Inl e
      | _ \<Rightarrow> Inr (JList []))"
  by (simp add: extract_raw_data_def Let_def split: source_file.splits)

text \<open>A run that does not reach the load, and a run that does.\<close>

lemma main_data_pipeline_no_load:
  assumes "\<And>data valid. src = Parsed data \<Longrightarrow>
             fst (transform_and_validate fs enc data w) = Inr valid \<Longrightarrow> valid = []"
  shows "stores (snd (main_data_pipeline fs enc src w)) = stores w"
    and "trace (snd (main_data_pipeline fs enc src w)) = trace w"
    and "redis (snd (main_data_pipeline fs enc src w)) = redis w"
proof -
  let ?w0 = "add_log INFO ''Pipeline starting...'' w"
  let ?w1 = "snd (extract_raw_data src ?w0)"
  have "stores (snd (main_data_pipeline fs enc src w)) = stores w
      \<and> trace (snd (main_data_pipeline fs enc src w)) = trace w
      \<and> redis (snd (main_data_pipeline fs enc src w)) = redis w"
  proof (cases "fst (extract_raw_data src ?w0)")
    case (Inl e)
    then show ?thesis
      using extract_raw_data_snd [of src ?w0]
      by (simp add: main_data_pipeline_def Let_def split_def)
  next
    case (Inr raw_data)
    show ?thesis
    proof (cases "falsy raw_data")
      case True
      then show ?thesis
        using Inr extract_raw_data_snd [of src ?w0]
        by (simp add: main_data_pipeline_def Let_def split_def)
    next
      case False
      then have src: "src = Parsed raw_data"
        using Inr by (auto simp: extract_raw_data_fst falsy_def split: source_file.splits if_splits)
      have "fst (transform_and_validate fs enc raw_data ?w1) \<noteq> Inr valid \<or> valid = []" for valid
        using assms [OF src, of valid] transform_and_validate_fst [of fs enc raw_data ?w1 w]
        by auto
      then show ?thesis
        using Inr False extract_raw_data_snd [of src ?w0]
          transform_and_validate_snd [of fs enc raw_data ?w1]
        by (cases "fst (transform_and_validate fs enc raw_data ?w1)")
           (auto simp: main_data_pipeline_def Let_def split_def)
    qed
  qed
  then show "stores (snd (main_data_pipeline fs enc src w)) = stores w"
    and "trace (snd (main_data_pipeline fs enc src w)) = trace w"
    and "redis (snd (main_data_pipeline fs enc src w)) = redis w"
    by simp_all
qed

lemma main_data_pipeline_loads:
  assumes "fst (transform_and_validate fs enc data w) = Inr valid" and "valid \<noteq> []"
  shows "\<exists>W. stores W = stores w \<and> redis W = redis w \<and> trace W = trace w
       \<and> main_data_pipeline fs enc (Parsed data) w =
           (case load_to_dbs valid W of
              (Some e, w3) \<Rightarrow> (Some e, w3)
            | (None, w3) \<Rightarrow>
                (None, add_log INFO
                   ''Pipeline finished successfully. Total time: {latency:.2f}s'' w3))"
proof -
  let ?w0 = "add_log INFO ''Pipeline starting...'' w"
  let ?w1 = "snd (extract_raw_data (Parsed data) ?w0)"
  let ?W = "snd (transform_and_validate fs enc data ?w1)"
  have hl: "has_len data"
    using assms(1) by (auto simp: transform_and_validate_fst_eq has_len_def split: json.splits)
  have nf: "\<not> falsy data"
    using assms transform_and_validate_falsy [of data fs enc w valid] by auto
  have t: "fst (transform_and_validate fs enc data ?w1) = Inr valid"
    using assms(1) transform_and_validate_fst [of fs enc data ?w1 w] by simp
  have "main_data_pipeline fs enc (Parsed data) w =
           (case load_to_dbs valid ?W of
              (Some e, w3) \<Rightarrow> (Some e, w3)
            | (None, w3) \<Rightarrow>
                (None, add_log INFO
                   ''Pipeline finished successfully. Total time: {latency:.2f}s'' w3))"
    using hl nf t assms(2)
    by (simp add: main_data_pipeline_def Let_def split_def extract_raw_data_def
        split: sum.splits prod.splits)
  moreover have "stores ?W = stores w" "redis ?W = redis w" "trace ?W = trace w"
    by simp_all
  ultimately show ?thesis by blast
qed

text \<open>The stores after a run, as a function of the stores before it; the cache after a run.\<close>

lemma main_data_pipeline_stores:
  "stores (snd (main_data_pipeline fs enc src w)) =
     (case src of
        Parsed data \<Rightarrow>
          (case fst (transform_and_validate fs enc data empty_world) of
             Inl e \<Rightarrow> stores w
           | Inr valid \<Rightarrow>
               if valid = [] then stores w
               else (map model_dump_exclude_embedding valid,
                     (case milvus_rows valid of None \<Rightarrow> Some [] | Some es \<Rightarrow> Some es),
                     (case milvus_rows valid of None \<Rightarrow> fst (snd (snd (stores w)))
                        | Some es \<Rightarrow> fold merge_record valid \<lparr>nodes = [], rels = []\<rparr>),
                     (case milvus_rows valid of None \<Rightarrow> snd (snd (snd (stores w)))
                        | Some es \<Rightarrow> groupby_size valid)))
      | _ \<Rightarrow> stores w)"
proof (cases "\<exists>data valid. src = Parsed data
                \<and> fst (transform_and_validate fs enc data w) = Inr valid \<and> valid \<noteq> []")
  case True
  then obtain data valid where src: "src = Parsed data"
    and tv: "fst (transform_and_validate fs enc data w) = Inr valid" and ne: "valid \<noteq> []"
    by blast
  obtain W where W: "stores W = stores w"
    and m: "main_data_pipeline fs enc (Parsed data) w =
           (case load_to_dbs valid W of
              (Some e, w3) \<Rightarrow> (Some e, w3)
            | (None, w3) \<Rightarrow>
                (None, add_log INFO
                   ''Pipeline finished successfully. Total time: {latency:.2f}s'' w3))"
    using main_data_pipeline_loads [OF tv ne] by blast
  have "stores (snd (main_data_pipeline fs enc (Parsed data) w)) = stores (snd (load_to_dbs valid W))"
    unfolding m by (cases "load_to_dbs valid W") (auto split: option.splits)
  moreover have "neo4j W = neo4j w" "sqlite W = sqlite w"
    using W by (simp_all add: stores_def)
  moreover have "fst (transform_and_validate fs enc data empty_world) = Inr valid"
    using tv transform_and_validate_fst [of fs enc data empty_world w] by simp
  ultimately show ?thesis
    using src ne load_to_dbs_stores [OF ne, of W]
    by (simp add: stores_def split: option.splits)
next
  case False
  then have nl: "valid = []"
    if "src = Parsed data" "fst (transform_and_validate fs enc data w) = Inr valid"
    for data valid
    using that by blast
  have "stores (snd (main_data_pipeline fs enc src w)) = stores w"
    by (rule main_data_pipeline_no_load; rule nl; assumption)
  moreover have "fst (transform_and_validate fs enc data empty_world) = Inr valid \<Longrightarrow> valid = []"
    if "src = Parsed data" for data valid
    using nl [OF that, of valid] transform_and_validate_fst [of fs enc data empty_world w]
    by simp
  ultimately show ?thesis
    by (auto split: source_file.splits sum.splits)
qed

lemma main_data_pipeline_redis:
  "redis (snd (main_data_pipeline fs enc src w)) = redis w"
proof (cases "\<exists>data valid. src = Parsed data
                \<and> fst (transform_and_validate fs enc data w) = Inr valid \<and> valid \<noteq> []")
  case True
  then obtain data valid where src: "src = Parsed data"
    and tv: "fst (transform_and_validate fs enc data w) = Inr valid" and ne: "valid \<noteq> []"
    by blast
  obtain W where W: "redis W = redis w"
    and m: "main_data_pipeline fs enc (Parsed data) w =
           (case load_to_dbs valid W of
              (Some e, w3) \<Rightarrow> (Some e, w3)
            | (None, w3) \<Rightarrow>
                (None, add_log INFO
                   ''Pipeline finished successfully. Total time: {latency:.2f}s'' w3))"
    using main_data_pipeline_loads [OF tv ne] by blast
  have l: "redis (snd (load_to_dbs valid W)) = redis W"
    using load_to_dbs_ok(6) [OF ne] load_to_dbs_refused(6) [OF ne]
    by (cases "milvus_rows valid") auto
  have "redis (snd (main_data_pipeline fs enc (Parsed data) w)) = redis (snd (load_to_dbs valid W))"
    unfolding m by (cases "load_to_dbs valid W") (auto split: option.splits)
  then show ?thesis using src l W by simp
next
  case False
  then have nl: "valid = []"
    if "src = Parsed data" "fst (transform_and_validate fs enc data w) = Inr valid"
    for data valid
    using that by blast
  show ?thesis
    by (rule main_data_pipeline_no_load; rule nl; assumption)
qed

section \<open>The example scenario, evaluated\<close>

lemma ex_vector_length [simp]: "length ex_vector = EMBEDDING_DIM"
  unfolding ex_vector_def by (rule length_replicate)

lemma ex_vector_nonempty [simp]: "ex_vector \<noteq> []"
proof
  assume "ex_vector = []"
  then have "length ex_vector = 0" by simp
  then show False by (simp add: EMBEDDING_DIM_def)
qed

lemma ex_transform:
  "fst (transform_and_validate ex_float_of_str ex_encode ex_raw w) = Inr ex_valid"
  by (simp add: transform_and_validate_def has_len_def ex_raw_def mk_raw_def ex_encode_def
      ex_valid_def Conversation_def str_field_def embedding_field_def split_def Let_def)

lemma ex_milvus_rows:
  "milvus_rows ex_valid =
     Some [(''m1'', ''A'', ex_vector), (''m2'', ''A'', ex_vector), (''m3'', ''B'', ex_vector)]"
  by (simp add: milvus_rows_def ex_valid_def)

lemma ex_groupby: "groupby_size ex_valid = [(''A'', ''X'', 2), (''B'', ''X'', 1)]"
  by (simp add: groupby_size_def ex_valid_def less_eq_prod_def)

lemma ex_graph:
  "fold merge_record ex_valid \<lparr>nodes = [], rels = []\<rparr> = neo4j loaded_world"
  by (simp add: ex_valid_def merge_record_def MERGE_def loaded_world_def)

lemma ex_pipeline_succeeds:
  "fst (main_data_pipeline ex_float_of_str ex_encode (Parsed ex_raw) w) = None"
proof -
  have ne: "ex_valid \<noteq> []" by (simp add: ex_valid_def)
  obtain W where
    m: "main_data_pipeline ex_float_of_str ex_encode (Parsed ex_raw) w =
           (case load_to_dbs ex_valid W of
              (Some e, w3) \<Rightarrow> (Some e, w3)
            | (None, w3) \<Rightarrow>
                (None, add_log INFO
                   ''Pipeline finished successfully. Total time: {latency:.2f}s'' w3))"
    using main_data_pipeline_loads [OF ex_transform ne] by blast
  show ?thesis
    using load_to_dbs_ok(1) [OF ne ex_milvus_rows, of W]
    unfolding m by (cases "load_to_dbs ex_valid W") (auto split: option.splits)
qed

text \<open>
  Pydantic keeps a record whose \<open>embedding\<close> field is a list of a numeric string and a
  boolean; the encoder's vector replaces the field.
\<close>

lemma ex_lax_kept:
  "fst (transform_and_validate ex_float_of_str ex_encode ex_raw_lax w) =
     Inr [\<lparr>message_id = ''m5'', user_id = ''E'', campaign_id = ''Y'', timestamp = ''t5'',
           intent = ''buy'', message = ''hey'', embedding = Some ex_vector\<rparr>]"
  by (simp add: transform_and_validate_def has_len_def ex_raw_lax_def mk_raw_def ex_encode_def
      Conversation_def str_field_def embedding_field_def float_item_def ex_float_of_str_def
      split_def Let_def)

text \<open>
  A batch Milvus refuses (a \<open>message_id\<close> of 101 characters): the run ends with
  \<open>MilvusException\<close>, MongoDB holds the new batch, the collection is empty, SQLite
  holds what it held.
\<close>

lemma ex_long_refused:
  "fst (main_data_pipeline ex_float_of_str ex_encode (Parsed ex_raw_long) loaded_world)
     = Some MilvusException
   \<and> map doc_user_id
        (mongo (snd (main_data_pipeline ex_float_of_str ex_encode (Parsed ex_raw_long)
                       loaded_world))) = [''F'']
   \<and> milvus (snd (main_data_pipeline ex_float_of_str ex_encode (Parsed ex_raw_long)
                     loaded_world)) = Some []
   \<and> sqlite (snd (main_data_pipeline ex_float_of_str ex_encode (Parsed ex_raw_long)
                     loaded_world)) = sqlite loaded_world"
proof -
  let ?d = "\<lparr>message_id = replicate 101 CHR ''m'', user_id = ''F'', campaign_id = ''Y'',
             timestamp = ''t6'', intent = ''buy'', message = ''ho'',
             embedding = Some ex_vector\<rparr>"
  have t: "fst (transform_and_validate ex_float_of_str ex_encode ex_raw_long loaded_world) = Inr [?d]"
    by (simp add: transform_and_validate_def has_len_def ex_raw_long_def mk_raw_def
        ex_encode_def Conversation_def str_field_def embedding_field_def split_def Let_def)
  have ne: "[?d] \<noteq> []" by simp
  have r: "milvus_rows [?d] = None"
    by (simp add: milvus_rows_def)
  obtain W where W: "stores W = stores loaded_world"
    and m: "main_data_pipeline ex_float_of_str ex_encode (Parsed ex_raw_long) loaded_world =
           (case load_to_dbs [?d] W of
              (Some e, w3) \<Rightarrow> (Some e, w3)
            | (None, w3) \<Rightarrow>
                (None, add_log INFO
                   ''Pipeline finished successfully. Total time: {latency:.2f}s'' w3))"
    using main_data_pipeline_loads [OF t ne] by blast
  have "sqlite W = sqlite loaded_world" using W by (simp add: stores_def)
  then show ?thesis
    using load_to_dbs_refused [OF ne r, of W]
    unfolding m
    by (cases "load_to_dbs [?d] W")
       (auto simp: model_dump_exclude_embedding_def split: option.splits)
qed

section \<open>Claims about the ingestion pipeline\<close>

text \<open>
  C2, as the specification states it: the load clears and fills the document store, then
  the vector store, then the graph store, then the analytics store, and the vector
  store's delete-all never precedes the document store's delete-all.
  The code does otherwise. \<open>load_to_dbs\<close> obtains its four clients before it touches
  MongoDB, and \<open>get_milvus_connection\<close> drops an existing collection: that drop is the
  vector store's clear (\<^verbatim>\<open># We clear old data by dropping/re-creating the collection in
  db.py\<close>). On the scenario's records, loaded over stores that already hold them, the
  drop comes first and MongoDB's \<open>delete_many\<close> sixth.
\<close>

theorem load_order_counterexample:
  "trace (snd (load_to_dbs ex_valid loaded_world)) =
     [MilvusDropCollection, MilvusCreateCollection, MilvusCreateIndex, MilvusLoad,
      SqliteCreateTableIfNotExists, MongoDeleteMany, MongoInsertMany 3, MilvusInsert 3,
      MilvusFlush, Neo4jDeleteAll, Neo4jMerge ''A'' ''X'' ''buy'' ''t1'',
      Neo4jMerge ''A'' ''X'' ''ask'' ''t2'', Neo4jMerge ''B'' ''X'' ''buy'' ''t3'',
      SqliteDelete, SqliteAppend 2, SqliteCommit, SqliteClose]
   \<and> trace (snd (load_to_dbs ex_valid loaded_world)) ! 0 = MilvusDropCollection
   \<and> trace (snd (load_to_dbs ex_valid loaded_world)) ! 5 = MongoDeleteMany"
proof -
  have ne: "ex_valid \<noteq> []" by (simp add: ex_valid_def)
  have t: "trace (snd (load_to_dbs ex_valid loaded_world)) =
     [MilvusDropCollection, MilvusCreateCollection, MilvusCreateIndex, MilvusLoad,
      SqliteCreateTableIfNotExists, MongoDeleteMany, MongoInsertMany 3, MilvusInsert 3,
      MilvusFlush, Neo4jDeleteAll, Neo4jMerge ''A'' ''X'' ''buy'' ''t1'',
      Neo4jMerge ''A'' ''X'' ''ask'' ''t2'', Neo4jMerge ''B'' ''X'' ''buy'' ''t3'',
      SqliteDelete, SqliteAppend 2, SqliteCommit, SqliteClose]"
    unfolding load_to_dbs_trace [OF ne ex_milvus_rows] ex_groupby
    by (simp add: loaded_world_def ex_valid_def)
  show ?thesis unfolding t by simp
qed

text \<open>
  C2, amended: for every non-empty list of records that fit the schema of the Milvus
  collection (ids of at most 100 bytes, an embedding of \<open>EMBEDDING_DIM\<close> components), the
  load succeeds and sends exactly this sequence of operations: the drop of the Milvus
  collection when one exists, its creation, indexing and loading, the creation of the
  SQLite table when it is missing; then MongoDB's delete-all and insert; Milvus's insert
  and flush; Neo4j's delete-all and one merge per record; SQLite's delete, append, commit
  and close. The inserts follow the order document, vector, graph, analytics; the vector
  store's clear precedes the document store's.
\<close>

theorem load_order:
  assumes "data \<noteq> []" and "list_all fits_schema data"
  shows "fst (load_to_dbs data w) = None \<and>
     trace (snd (load_to_dbs data w)) =
       trace w @ (case milvus w of None \<Rightarrow> [] | Some old \<Rightarrow> [MilvusDropCollection])
       @ [MilvusCreateCollection, MilvusCreateIndex, MilvusLoad, SqliteCreateTableIfNotExists,
          MongoDeleteMany, MongoInsertMany (length data),
          MilvusInsert (length data), MilvusFlush, Neo4jDeleteAll]
       @ map (\<lambda>d. Neo4jMerge (user_id d) (campaign_id d) (intent d) (timestamp d)) data
       @ [SqliteDelete, SqliteAppend (length (groupby_size data)), SqliteCommit, SqliteClose]"
proof -
  obtain es where es: "milvus_rows data = Some es"
    using milvus_rows_fits [of data] assms(2) by auto
  show ?thesis
    using load_to_dbs_ok(1) [OF assms(1) es] load_to_dbs_trace [OF assms(1) es] by simp
qed

theorem load_order_witness:
  "fst (load_to_dbs ex_valid empty_world) = None \<and>
   trace (snd (load_to_dbs ex_valid empty_world)) =
     [MilvusCreateCollection, MilvusCreateIndex, MilvusLoad,
      SqliteCreateTableIfNotExists, MongoDeleteMany, MongoInsertMany 3, MilvusInsert 3,
      MilvusFlush, Neo4jDeleteAll, Neo4jMerge ''A'' ''X'' ''buy'' ''t1'',
      Neo4jMerge ''A'' ''X'' ''ask'' ''t2'', Neo4jMerge ''B'' ''X'' ''buy'' ''t3'',
      SqliteDelete, SqliteAppend 2, SqliteCommit, SqliteClose]"
proof -
  have ne: "ex_valid \<noteq> []" by (simp add: ex_valid_def)
  have fit: "list_all fits_schema ex_valid" by (simp add: ex_valid_def fits_schema_def)
  show ?thesis
    using load_order [OF ne fit, of empty_world] unfolding ex_groupby
    by (simp add: empty_world_def ex_valid_def)
qed

text \<open>
  C3, as the specification states it: every input that is empty, unreadable, or from
  which no record survives makes the run halt with a logged error. The code catches
  \<open>FileNotFoundError\<close> and \<open>JSONDecodeError\<close> when it reads and \<open>ValidationError\<close> when
  it validates, and nothing else: a file that is not UTF-8, and a list whose item is a
  number, end the run with an uncaught exception, and the pipeline logs no error.
\<close>

theorem halt_counterexample:
  "fst (main_data_pipeline ex_float_of_str ex_encode (OtherError UnicodeDecodeError) loaded_world)
     = Some UnicodeDecodeError
   \<and> map fst (logged (snd (main_data_pipeline ex_float_of_str ex_encode
        (OtherError UnicodeDecodeError) loaded_world))) = [INFO, INFO]
   \<and> fst (main_data_pipeline ex_float_of_str ex_encode (Parsed (JList [JInt 5])) loaded_world)
     = Some TypeError
   \<and> map fst (logged (snd (main_data_pipeline ex_float_of_str ex_encode
        (Parsed (JList [JInt 5])) loaded_world))) = [INFO, INFO, INFO, INFO]"
  by (simp add: main_data_pipeline_def extract_raw_data_def transform_and_validate_def
      has_len_def falsy_def Let_def loaded_world_def add_log_def)

text \<open>
  C3, amended: a run that does not reach the load, because the input is missing, is not
  JSON, is empty, leaves no record after validation and embedding, or raises an exception
  on the way, leaves the four stores, the cache and the sequence of store operations
  as they were. When the file is missing or is not JSON, or when it parses and validation
  ends with an empty list (an empty input among these), the run ends without an exception
  and the last thing logged is an error.
\<close>

theorem halt_without_mutation:
  assumes "\<And>data valid. src = Parsed data \<Longrightarrow>
             fst (transform_and_validate float_of_str encode data w) = Inr valid \<Longrightarrow> valid = []"
  shows "stores (snd (main_data_pipeline float_of_str encode src w)) = stores w
       \<and> redis (snd (main_data_pipeline float_of_str encode src w)) = redis w
       \<and> trace (snd (main_data_pipeline float_of_str encode src w)) = trace w
       \<and> (src = FileNotFoundError \<or> src = JSONDecodeError
            \<or> (\<exists>data. src = Parsed data
                  \<and> fst (transform_and_validate float_of_str encode data w) = Inr [])
          \<longrightarrow> fst (main_data_pipeline float_of_str encode src w) = None
              \<and> fst (last (logged (snd (main_data_pipeline float_of_str encode src w)))) = ERROR)"
proof -
  have frame:
    "stores (snd (main_data_pipeline float_of_str encode src w)) = stores w"
    "trace (snd (main_data_pipeline float_of_str encode src w)) = trace w"
    "redis (snd (main_data_pipeline float_of_str encode src w)) = redis w"
    by (rule main_data_pipeline_no_load; rule assms; assumption)+
  have handled: "fst (main_data_pipeline float_of_str encode src w) = None
      \<and> fst (last (logged (snd (main_data_pipeline float_of_str encode src w)))) = ERROR"
    if h: "src = FileNotFoundError \<or> src = JSONDecodeError
          \<or> (\<exists>data. src = Parsed data
                \<and> fst (transform_and_validate float_of_str encode data w) = Inr [])"
  proof -
    consider (unreadable) "src = FileNotFoundError \<or> src = JSONDecodeError"
      | (dropped) data where "src = Parsed data"
          "fst (transform_and_validate float_of_str encode data w) = Inr []"
      using h by auto
    then show ?thesis
    proof cases
      case unreadable
      then show ?thesis
        by (auto simp: main_data_pipeline_def extract_raw_data_def falsy_def Let_def)
    next
      case dropped
      let ?w1 = "snd (extract_raw_data src (add_log INFO ''Pipeline starting...'' w))"
      have hl: "has_len data"
        using dropped(2)
        by (auto simp: transform_and_validate_fst_eq has_len_def split: json.splits)
      have t: "fst (transform_and_validate float_of_str encode data ?w1) = Inr []"
        using dropped(2) transform_and_validate_fst [of float_of_str encode data ?w1 w] by simp
      show ?thesis
        using dropped(1) hl t
        by (cases "transform_and_validate float_of_str encode data ?w1")
           (auto simp: main_data_pipeline_def extract_raw_data_def Let_def)
    qed
  qed
  show ?thesis using frame handled by blast
qed

theorem halt_without_mutation_witness:
  "fst (transform_and_validate ex_float_of_str ex_encode ex_raw_blank loaded_world) = Inr []
   \<and> fst (main_data_pipeline ex_float_of_str ex_encode (Parsed ex_raw_blank) loaded_world) = None
   \<and> stores (snd (main_data_pipeline ex_float_of_str ex_encode (Parsed ex_raw_blank) loaded_world))
       = stores loaded_world
   \<and> trace (snd (main_data_pipeline ex_float_of_str ex_encode (Parsed ex_raw_blank) loaded_world))
       = []
   \<and> fst (last (logged (snd (main_data_pipeline ex_float_of_str ex_encode (Parsed ex_raw_blank)
                                loaded_world)))) = ERROR"
proof -
  have e: "fst (transform_and_validate ex_float_of_str ex_encode ex_raw_blank loaded_world) = Inr []"
    by (simp add: transform_and_validate_def has_len_def ex_raw_blank_def mk_raw_def
        ex_encode_def Conversation_def str_field_def embedding_field_def split_def Let_def)
  have p: "valid = []"
    if "Parsed ex_raw_blank = Parsed data"
      "fst (transform_and_validate ex_float_of_str ex_encode data loaded_world) = Inr valid"
    for data valid
    using that e by simp
  have t: "trace loaded_world = []" by (simp add: loaded_world_def)
  have "stores (snd (main_data_pipeline ex_float_of_str ex_encode (Parsed ex_raw_blank) loaded_world))
          = stores loaded_world
       \<and> redis (snd (main_data_pipeline ex_float_of_str ex_encode (Parsed ex_raw_blank) loaded_world))
          = redis loaded_world
       \<and> trace (snd (main_data_pipeline ex_float_of_str ex_encode (Parsed ex_raw_blank) loaded_world))
          = trace loaded_world
       \<and> (Parsed ex_raw_blank = FileNotFoundError \<or> Parsed ex_raw_blank = JSONDecodeError
            \<or> (\<exists>data. Parsed ex_raw_blank = Parsed data
                  \<and> fst (transform_and_validate ex_float_of_str ex_encode data loaded_world) = Inr [])
          \<longrightarrow> fst (main_data_pipeline ex_float_of_str ex_encode (Parsed ex_raw_blank) loaded_world) = None
              \<and> fst (last (logged (snd (main_data_pipeline ex_float_of_str ex_encode
                    (Parsed ex_raw_blank) loaded_world)))) = ERROR)"
    by (rule halt_without_mutation; rule p; assumption)
  then show ?thesis
    using e t by auto
qed

text \<open>
  C4: after a run that ends without an exception on a batch that leaves at least one valid
  record, the analytics table is the grouped count of the valid records: a row
  \<open>(u, c, n)\<close> is in the table exactly when \<open>n\<close> is the number of valid records of user
  \<open>u\<close> and campaign \<open>c\<close> and \<open>n\<close> is positive, and no pair has two rows.
\<close>

theorem analytics_counts:
  assumes "fst (transform_and_validate float_of_str encode data w) = Inr valid"
    and "valid \<noteq> []"
    and "fst (main_data_pipeline float_of_str encode (Parsed data) w) = None"
  shows "sqlite (snd (main_data_pipeline float_of_str encode (Parsed data) w)) = groupby_size valid
       \<and> (\<forall>u c n. (u, c, n) \<in> set (sqlite (snd (main_data_pipeline float_of_str encode (Parsed data) w)))
            \<longleftrightarrow> n = int (length (filter (\<lambda>d. user_id d = u \<and> campaign_id d = c) valid))
                \<and> 0 < n)
       \<and> distinct (map (\<lambda>r. (fst r, fst (snd r)))
            (sqlite (snd (main_data_pipeline float_of_str encode (Parsed data) w))))"
proof -
  obtain W where
    m: "main_data_pipeline float_of_str encode (Parsed data) w =
           (case load_to_dbs valid W of
              (Some e, w3) \<Rightarrow> (Some e, w3)
            | (None, w3) \<Rightarrow>
                (None, add_log INFO
                   ''Pipeline finished successfully. Total time: {latency:.2f}s'' w3))"
    using main_data_pipeline_loads [OF assms(1,2)] by blast
  have ok: "fst (load_to_dbs valid W) = None"
    using assms(3) unfolding m by (cases "load_to_dbs valid W") (auto split: option.splits)
  obtain es where es: "milvus_rows valid = Some es"
    using ok load_to_dbs_refused(1) [OF assms(2), of W] by (cases "milvus_rows valid") auto
  have s: "sqlite (snd (main_data_pipeline float_of_str encode (Parsed data) w)) = groupby_size valid"
    using load_to_dbs_ok(5) [OF assms(2) es, of W] ok
    unfolding m by (cases "load_to_dbs valid W") (auto simp: add_log_def split: option.splits)
  have d: "distinct (map (\<lambda>r. (fst r, fst (snd r))) (groupby_size valid))"
    by (simp add: groupby_size_keys)
  show ?thesis
    using d unfolding s by (simp add: groupby_size_member)
qed

text \<open>
  The scenario of the specification: two records of A and one of B for campaign X give
  the rows \<open>(A, X, 2)\<close> and \<open>(B, X, 1)\<close>.
\<close>

theorem analytics_counts_witness:
  "sqlite (snd (main_data_pipeline ex_float_of_str ex_encode (Parsed ex_raw) empty_world))
     = [(''A'', ''X'', 2), (''B'', ''X'', 1)]"
proof -
  have ne: "ex_valid \<noteq> []" by (simp add: ex_valid_def)
  show ?thesis
    using analytics_counts [OF ex_transform ne ex_pipeline_succeeds, of empty_world]
    unfolding ex_groupby by simp
qed

text \<open>
  C5: a second run on the same data file, with the same encoder, leaves the four stores as
  the first run left them, whatever the stores held before and whether the run loaded,
  halted early, raised an exception or was refused by Milvus.
\<close>

theorem ingestion_idempotent:
  "stores (snd (main_data_pipeline float_of_str encode src
                  (snd (main_data_pipeline float_of_str encode src w))))
     = stores (snd (main_data_pipeline float_of_str encode src w))"
  unfolding main_data_pipeline_stores
    [of float_of_str encode src "snd (main_data_pipeline float_of_str encode src w)"]
  unfolding main_data_pipeline_stores [of float_of_str encode src w]
  by (simp add: Let_def split: source_file.splits option.splits sum.splits)

theorem ingestion_idempotent_witness:
  "stores (snd (main_data_pipeline ex_float_of_str ex_encode (Parsed ex_raw)
             (snd (main_data_pipeline ex_float_of_str ex_encode (Parsed ex_raw) empty_world))))
     = stores (snd (main_data_pipeline ex_float_of_str ex_encode (Parsed ex_raw) empty_world))"
  by (rule ingestion_idempotent)

section \<open>The stages of a request\<close>

lemma get_user_query_vector_snd [simp]:
  "snd (get_user_query_vector e uid w) = add_op (MongoFindOne uid) w"
  by (simp add: get_user_query_vector_def Let_def split: option.splits)

lemma get_user_query_vector_fst:
  "fst (get_user_query_vector e uid w) =
     (case find (\<lambda>d. doc_user_id d = uid) (mongo w) of
        None \<Rightarrow> Inr None
      | Some m \<Rightarrow> (case model_encode e (doc_message m) of
                     None \<Rightarrow> Inl AttributeError
                   | Some v \<Rightarrow> Inr (Some v)))"
  by (simp add: get_user_query_vector_def Let_def add_op_def split: option.splits)

lemma get_user_query_vector_fst_cong:
  "mongo w' = mongo w \<Longrightarrow>
   fst (get_user_query_vector e uid w') = fst (get_user_query_vector e uid w)"
  by (simp add: get_user_query_vector_fst)

lemma search_similar_users_fst:
  "fst (search_similar_users e qv k w) =
     (case milvus w of None \<Rightarrow> Inl MilvusException
      | Some es \<Rightarrow> Inr (remdups (map (\<lambda>hit. fst (snd hit)) (milvus_search e qv es k))))"
  by (simp add: search_similar_users_def Let_def split: option.splits)

lemma search_similar_users_snd:
  "snd (search_similar_users e qv k w) =
     (case milvus w of None \<Rightarrow> w | Some es \<Rightarrow> add_op (MilvusSearch k) w)"
  by (simp add: search_similar_users_def Let_def split: option.splits)

lemma fetch_campaigns_for_users_snd [simp]:
  "snd (fetch_campaigns_for_users us w) = add_op Neo4jMatch w"
  by (simp add: fetch_campaigns_for_users_def)

lemma fetch_campaigns_for_users_fst_cong:
  "neo4j w' = neo4j w \<Longrightarrow>
   fst (fetch_campaigns_for_users us w') = fst (fetch_campaigns_for_users us w)"
  by (simp add: fetch_campaigns_for_users_def)

lemma rank_campaigns_by_engagement_snd [simp]:
  "snd (rank_campaigns_by_engagement cs w) =
     add_op SqliteClose (add_op SqliteSelect (get_sqlite_conn w))"
  by (simp add: rank_campaigns_by_engagement_def Let_def)

lemma rank_campaigns_by_engagement_fst:
  "fst (rank_campaigns_by_engagement cs w) =
     map (\<lambda>row. \<lparr>item_campaign_id = fst row, ranking_score = snd row\<rparr>)
       (select_ranked cs (sqlite w))"
  by (simp add: rank_campaigns_by_engagement_def Let_def)

lemma field_add_log [simp]:
  "mongo (add_log l s w) = mongo w"
  "milvus (add_log l s w) = milvus w"
  "neo4j (add_log l s w) = neo4j w"
  "sqlite (add_log l s w) = sqlite w"
  by (simp_all add: add_log_def)

lemma field_add_op [simp]:
  "mongo (add_op x w) = mongo w"
  "milvus (add_op x w) = milvus w"
  "neo4j (add_op x w) = neo4j w"
  "sqlite (add_op x w) = sqlite w"
  by (simp_all add: add_op_def)

lemma stores_redis_set [simp]:
  "stores (snd (redis_set e key v ex w)) = stores w"
  by (simp add: redis_set_def stores_def)

lemma stores_get_sqlite_conn [simp]: "stores (get_sqlite_conn w) = stores w"
  by (simp add: stores_def)



text \<open>
  The response computed on a miss depends on the four stores, the encoder and the search,
  and on nothing else: not on the cache, the log or the operations sent so far.
\<close>

lemma compute_recommendations_fst_cong:
  assumes "stores w' = stores w" "model_encode e' = model_encode e"
    "milvus_search e' = milvus_search e"
  shows "fst (compute_recommendations e' uid w') = fst (compute_recommendations e uid w)"
proof -
  have f: "mongo w' = mongo w" "milvus w' = milvus w" "neo4j w' = neo4j w" "sqlite w' = sqlite w"
    using assms(1) by (simp_all add: stores_def)
  show ?thesis
    using f assms(2,3)
    by (auto simp: compute_recommendations_def Let_def split_def get_user_query_vector_def
        search_similar_users_def fetch_campaigns_for_users_def rank_campaigns_by_engagement_def
        split: option.splits)
qed


lemma compute_recommendations_redis:
  "redis_set_fails e \<Longrightarrow> redis (snd (compute_recommendations e uid w)) = redis w"
  by (auto simp: compute_recommendations_def Let_def split_def search_similar_users_snd
      redis_set_def split: prod.splits sum.splits option.splits)

lemma get_recommendations_miss:
  assumes "redis_get_fails e \<or> redis w (''rec:'' @ uid) = None"
  shows "fst (get_recommendations e uid w) = fst (compute_recommendations e uid w)"
    and "redis_set_fails e \<Longrightarrow> redis (snd (get_recommendations e uid w)) = redis w"
proof -
  show "fst (get_recommendations e uid w) = fst (compute_recommendations e uid w)"
  proof (cases "redis_get_fails e")
    case True
    then show ?thesis
      using compute_recommendations_fst_cong
        [of "add_log WARNING ''Redis cache read failed: {e}'' w" w e e uid]
      by (simp add: get_recommendations_def Let_def redis_get_def)
  next
    case False
    then have "redis w (''rec:'' @ uid) = None" using assms by simp
    then show ?thesis
      using False compute_recommendations_fst_cong
        [of "add_op (RedisGet (''rec:'' @ uid)) w" w e e uid]
      by (simp add: get_recommendations_def Let_def redis_get_def)
  qed
  show "redis (snd (get_recommendations e uid w)) = redis w" if "redis_set_fails e"
    using assms that
    by (auto simp: get_recommendations_def Let_def redis_get_def compute_recommendations_redis)
qed

lemma get_recommendations_hit:
  assumes "\<not> redis_get_fails e" "redis w (''rec:'' @ uid) = Some (v, t)"
  shows "fst (get_recommendations e uid w) =
           Inr \<lparr>resp_user_id = uid, recommendations = v, retrieval_source = ''cache''\<rparr>"
  using assms by (simp add: get_recommendations_def Let_def redis_get_def)

text \<open>The ranking query.\<close>

lemma total_engagement_filter:
  "c \<in> set cs \<Longrightarrow>
   total_engagement (filter (\<lambda>r. fst (snd r) \<in> set cs) table) c = total_engagement table c"
  by (simp add: total_engagement_def conj_commute cong: conj_cong)

lemma select_ranked_sorted:
  "sorted_wrt (\<lambda>a b. snd b \<le> snd a) (select_ranked cs table)"
proof -
  have "sorted (map (\<lambda>g. - snd g) (select_ranked cs table))"
    by (simp add: select_ranked_def Let_def)
  then show ?thesis
    by (simp add: sorted_wrt_map)
qed

lemma select_ranked_set:
  "set (select_ranked cs table) =
     (\<lambda>c. (c, total_engagement table c)) ` (set cs \<inter> (\<lambda>r. fst (snd r)) ` set table)"
  by (auto simp: select_ranked_def Let_def total_engagement_filter)

lemma select_ranked_distinct: "distinct (map fst (select_ranked cs table))"
proof -
  let ?groups = "rev (sort (remdups (map (\<lambda>r. fst (snd r))
                   (filter (\<lambda>r. fst (snd r) \<in> set cs) table))))"
  let ?f = "\<lambda>c. (c, total_engagement (filter (\<lambda>r. fst (snd r) \<in> set cs) table) c)"
  have sel: "select_ranked cs table = sort_key (\<lambda>g. - snd g) (map ?f ?groups)"
    by (simp add: select_ranked_def Let_def)
  have "distinct (map ?f ?groups)"
    by (simp add: distinct_map inj_on_def)
  moreover have "inj_on fst (set (map ?f ?groups))"
    by (auto simp: inj_on_def)
  ultimately show ?thesis
    unfolding sel by (simp add: distinct_map)
qed

lemma select_ranked_score:
  "map snd (select_ranked cs table) = map (\<lambda>g. total_engagement table (fst g)) (select_ranked cs table)"
  using select_ranked_set [of cs table] by auto

text \<open>Start-up of the API.\<close>

lemma lifespan_fields [simp]:
  "mongo (lifespan w) = mongo w"
  "milvus (lifespan w) = Some []"
  "neo4j (lifespan w) = neo4j w"
  "sqlite (lifespan w) = sqlite w"
  "redis (lifespan w) = redis w"
  by (simp_all add: lifespan_def)

lemma lifespan_trace:
  "trace (lifespan w) =
     trace w @ (case milvus w of None \<Rightarrow> [] | Some old \<Rightarrow> [MilvusDropCollection])
       @ [MilvusCreateCollection, MilvusCreateIndex, MilvusLoad]"
  by (simp add: lifespan_def get_milvus_connection_trace)

section \<open>Requests in the example scenario\<close>

lemma ex_select_X: "select_ranked [''X''] [(''A'', ''X'', 2), (''B'', ''X'', 1)] = [(''X'', 3)]"
  by (simp add: select_ranked_def total_engagement_def)

lemma ex_select_XY:
  "select_ranked [''X'', ''Y''] [(''A'', ''X'', 2), (''B'', ''X'', 1), (''A'', ''Y'', 5), (''C'', ''W'', 4)]
     = [(''Y'', 5), (''X'', 3)]"
  by (simp add: select_ranked_def total_engagement_def)

lemma ex_request_A:
  "fst (get_recommendations ex_env ''A'' loaded_world) =
     Inr \<lparr>resp_user_id = ''A'',
           recommendations = [\<lparr>item_campaign_id = ''X'', ranking_score = 3, reason = REASON\<rparr>],
           retrieval_source = ''computed''\<rparr>"
  by (simp add: get_recommendations_def redis_get_def compute_recommendations_def Let_def
      get_user_query_vector_def search_similar_users_def fetch_campaigns_for_users_def
      rank_campaigns_by_engagement_def get_sqlite_conn_def redis_set_def annotate_def
      ex_env_def ex_encode_def loaded_world_def ex_valid_def model_dump_exclude_embedding_def
      add_op_def add_log_def ex_select_X)

lemma ex_request_B_caches:
  "redis (snd (get_recommendations ex_env ''B'' loaded_world)) ''rec:B'' =
     Some ([\<lparr>item_campaign_id = ''X'', ranking_score = 3, reason = REASON\<rparr>], 300)"
  by (simp add: get_recommendations_def redis_get_def compute_recommendations_def Let_def
      get_user_query_vector_def search_similar_users_def fetch_campaigns_for_users_def
      rank_campaigns_by_engagement_def get_sqlite_conn_def redis_set_def annotate_def
      ex_env_def ex_encode_def loaded_world_def ex_valid_def model_dump_exclude_embedding_def
      add_op_def add_log_def ex_select_X RECOMMENDATION_CACHE_TTL_SECONDS_def)

lemma ex_transform_A:
  "fst (transform_and_validate ex_float_of_str ex_encode ex_raw_A w) =
     Inr [\<lparr>message_id = ''m1'', user_id = ''A'', campaign_id = ''X'', timestamp = ''t1'',
           intent = ''buy'', message = ''hello'', embedding = Some ex_vector\<rparr>,
          \<lparr>message_id = ''m2'', user_id = ''A'', campaign_id = ''X'', timestamp = ''t2'',
           intent = ''ask'', message = ''price?'', embedding = Some ex_vector\<rparr>]"
  by (simp add: transform_and_validate_def has_len_def ex_raw_A_def mk_raw_def ex_encode_def
      Conversation_def str_field_def embedding_field_def split_def Let_def)

lemma stale_world_mongo:
  "map doc_user_id (mongo stale_world) = [''A'', ''A'']"
proof -
  have "mongo stale_world = fst (stores stale_world)" by (simp add: stores_def)
  then show ?thesis
    unfolding stale_world_def main_data_pipeline_stores
    by (simp add: ex_transform_A model_dump_exclude_embedding_def)
qed

lemma ex_query_vector_A:
  "mongo w = mongo loaded_world \<Longrightarrow>
   fst (get_user_query_vector ex_env ''A'' w) = Inr (Some ex_vector)"
  by (simp add: get_user_query_vector_fst loaded_world_def ex_valid_def
      model_dump_exclude_embedding_def ex_env_def ex_encode_def)

lemma ex_request_A_after_startup:
  "fst (get_recommendations ex_env ''A'' (lifespan loaded_world)) =
     Inr \<lparr>resp_user_id = ''A'', recommendations = [], retrieval_source = ''computed''\<rparr>"
proof -
  have m: "redis_get_fails ex_env \<or> redis (lifespan loaded_world) (''rec:'' @ ''A'') = None"
    by (simp add: loaded_world_def)
  have q: "fst (get_user_query_vector ex_env ''A'' (add_log l s (lifespan loaded_world)))
      = Inr (Some ex_vector)" for l s
    by (rule ex_query_vector_A) simp
  show ?thesis
    unfolding get_recommendations_miss(1) [OF m]
    using q
    by (simp add: compute_recommendations_def Let_def split_def search_similar_users_def
        ex_env_def prod_eq_iff split: sum.splits option.splits prod.splits)
qed

lemma ex_pipeline_loads:
  "stores (snd (main_data_pipeline ex_float_of_str ex_encode (Parsed ex_raw) empty_world))
     = stores loaded_world"
proof -
  have ne: "ex_valid \<noteq> []" by (simp add: ex_valid_def)
  show ?thesis
    unfolding main_data_pipeline_stores
    using ne by (simp add: ex_transform ex_milvus_rows ex_groupby ex_graph stores_def loaded_world_def)
qed

section \<open>Claims about the recommendation API\<close>

text \<open>
  C1: the specification makes the ingestion pipeline the only writer of the vector store
  and the API a reader of it. The request handler keeps to that (the frame lemma above),
  but the API's start-up does not: \<open>lifespan\<close> obtains its Milvus handle through
  \<open>get_milvus_connection\<close>, which drops the collection the pipeline filled and creates an
  empty one. In the scenario the three entities are gone after start-up, and user A, who
  got campaign X before, gets an empty list.
\<close>

theorem api_startup_empties_vector_store:
  "milvus loaded_world =
     Some [(''m1'', ''A'', ex_vector), (''m2'', ''A'', ex_vector), (''m3'', ''B'', ex_vector)]
   \<and> milvus (lifespan loaded_world) = Some []
   \<and> fst (get_recommendations ex_env ''A'' loaded_world) =
       Inr \<lparr>resp_user_id = ''A'',
             recommendations = [\<lparr>item_campaign_id = ''X'', ranking_score = 3, reason = REASON\<rparr>],
             retrieval_source = ''computed''\<rparr>
   \<and> fst (get_recommendations ex_env ''A'' (lifespan loaded_world)) =
       Inr \<lparr>resp_user_id = ''A'', recommendations = [], retrieval_source = ''computed''\<rparr>"
  using ex_request_A ex_request_A_after_startup by (simp add: loaded_world_def)




text \<open>
  C7, as the specification states it: for every user without a record in the document
  store the request signals not-found. The handler looks into the cache first, and the
  pipeline does not clear the cache: after user B was served and a batch without B was
  ingested, B has no record and the request still returns the cached list.
\<close>

theorem stale_cache_counterexample:
  "''B'' \<notin> set (map doc_user_id (mongo stale_world))
   \<and> fst (get_recommendations ex_env ''B'' stale_world) =
       Inr \<lparr>resp_user_id = ''B'',
             recommendations = [\<lparr>item_campaign_id = ''X'', ranking_score = 3, reason = REASON\<rparr>],
             retrieval_source = ''cache''\<rparr>"
proof -
  have r: "redis stale_world (''rec:'' @ ''B'') =
     Some ([\<lparr>item_campaign_id = ''X'', ranking_score = 3, reason = REASON\<rparr>], 300)"
    using ex_request_B_caches by (simp add: stale_world_def main_data_pipeline_redis)
  have e: "\<not> redis_get_fails ex_env" by (simp add: ex_env_def)
  show ?thesis
    using get_recommendations_hit [OF e r] by (simp add: stale_world_mongo)
qed

text \<open>
  C7, amended: for a user without a record in the document store the request signals
  not-found (404) when the cache read fails or holds no entry for the user, and returns
  the cached list with source "cache" otherwise; in no case a response with source
  "computed".
\<close>

theorem absent_user:
  assumes "find (\<lambda>d. doc_user_id d = uid) (mongo w) = None"
  shows "fst (get_recommendations e uid w) =
     (if redis_get_fails e \<or> redis w (''rec:'' @ uid) = None then Inl (HTTPException 404)
      else Inr \<lparr>resp_user_id = uid,
                recommendations = fst (the (redis w (''rec:'' @ uid))),
                retrieval_source = ''cache''\<rparr>)"
  using assms
  by (auto simp: get_recommendations_def Let_def redis_get_def compute_recommendations_def
      get_user_query_vector_def
      split: prod.splits sum.splits option.splits)

theorem absent_user_witness:
  "''Z'' \<notin> set (map doc_user_id (mongo loaded_world))
   \<and> fst (get_recommendations ex_env ''Z'' loaded_world) = Inl (HTTPException 404)"
proof -
  have m: "map doc_user_id (mongo loaded_world) = [''A'', ''A'', ''B'']"
    by (simp add: loaded_world_def ex_valid_def model_dump_exclude_embedding_def)
  have f: "find (\<lambda>d. doc_user_id d = ''Z'') (mongo loaded_world) = None"
    by (simp add: loaded_world_def ex_valid_def model_dump_exclude_embedding_def)
  have r: "redis loaded_world (''rec:'' @ ''Z'') = None" by (simp add: loaded_world_def)
  show ?thesis
    using absent_user [OF f, of ex_env] r m by simp
qed

text \<open>
  C8: on a cache miss (or failed read), for a user whose message embeds to a non-empty
  vector: when the search yields no user ids, or the graph yields no campaign for them,
  the response is the empty list with source "computed"; the operations sent are the
  cache read, MongoDB's \<open>find_one\<close>, the Milvus search and, only when there were
  similar users, the Neo4j match. SQLite is not queried and the cache is not written.
\<close>

theorem empty_stage_short_circuit:
  assumes "redis_get_fails e \<or> redis w (''rec:'' @ uid) = None"
    and "fst (get_user_query_vector e uid w) = Inr (Some qv)" and "qv \<noteq> []"
    and "fst (search_similar_users e qv 5 w) = Inr users"
    and "users = [] \<or> fst (fetch_campaigns_for_users users w) = []"
  shows "fst (get_recommendations e uid w) =
           Inr \<lparr>resp_user_id = uid, recommendations = [], retrieval_source = ''computed''\<rparr>
       \<and> trace (snd (get_recommendations e uid w)) =
           trace w @ (if redis_get_fails e then [] else [RedisGet (''rec:'' @ uid)])
             @ [MongoFindOne uid, MilvusSearch 5] @ (if users = [] then [] else [Neo4jMatch])
       \<and> redis (snd (get_recommendations e uid w)) = redis w"
proof -
  obtain d where d: "find (\<lambda>d. doc_user_id d = uid) (mongo w) = Some d"
      "model_encode e (doc_message d) = Some qv"
    using assms(2) by (auto simp: get_user_query_vector_fst split: option.splits)
  obtain es where es: "milvus w = Some es"
      "users = remdups (map (\<lambda>hit. fst (snd hit)) (milvus_search e qv es 5))"
    using assms(4) by (auto simp: search_similar_users_fst split: option.splits)
  have c: "fst (compute_recommendations e uid w') =
      Inr \<lparr>resp_user_id = uid, recommendations = [], retrieval_source = ''computed''\<rparr>
     \<and> trace (snd (compute_recommendations e uid w')) =
         trace w' @ [MongoFindOne uid, MilvusSearch 5] @ (if users = [] then [] else [Neo4jMatch])
     \<and> redis (snd (compute_recommendations e uid w')) = redis w'"
    if "mongo w' = mongo w" "milvus w' = milvus w" "neo4j w' = neo4j w" for w'
    using that d es assms(3,5)
    by (auto simp: compute_recommendations_def Let_def get_user_query_vector_def
        search_similar_users_def fetch_campaigns_for_users_def split_def)
  show ?thesis
  proof (cases "redis_get_fails e")
    case True
    then show ?thesis
      using c [of "add_log WARNING ''Redis cache read failed: {e}'' w"]
      by (simp add: get_recommendations_def Let_def redis_get_def)
  next
    case False
    then have "redis w (''rec:'' @ uid) = None" using assms(1) by simp
    then show ?thesis
      using False c [of "add_op (RedisGet (''rec:'' @ uid)) w"]
      by (simp add: get_recommendations_def Let_def redis_get_def)
  qed
qed

text \<open>A request for user A right after the API's start-up, when the collection is empty.\<close>

theorem empty_stage_short_circuit_witness:
  "fst (get_recommendations ex_env ''A'' (lifespan loaded_world)) =
     Inr \<lparr>resp_user_id = ''A'', recommendations = [], retrieval_source = ''computed''\<rparr>
   \<and> trace (snd (get_recommendations ex_env ''A'' (lifespan loaded_world))) =
       [MilvusDropCollection, MilvusCreateCollection, MilvusCreateIndex, MilvusLoad,
        RedisGet ''rec:A'', MongoFindOne ''A'', MilvusSearch 5]"
proof -
  have m: "redis_get_fails ex_env \<or> redis (lifespan loaded_world) (''rec:'' @ ''A'') = None"
    by (simp add: loaded_world_def)
  have q: "fst (get_user_query_vector ex_env ''A'' (lifespan loaded_world)) = Inr (Some ex_vector)"
    by (rule ex_query_vector_A) simp
  have n: "ex_vector \<noteq> []" by simp
  have s: "fst (search_similar_users ex_env ex_vector 5 (lifespan loaded_world)) = Inr []"
    by (simp add: search_similar_users_fst ex_env_def)
  have u: "[] = ([] :: string list) \<or> fst (fetch_campaigns_for_users [] (lifespan loaded_world)) = []"
    by simp
  have t: "trace (lifespan loaded_world) =
     [MilvusDropCollection, MilvusCreateCollection, MilvusCreateIndex, MilvusLoad]"
    by (simp add: lifespan_trace loaded_world_def)
  have g: "\<not> redis_get_fails ex_env" by (simp add: ex_env_def)
  show ?thesis
    using empty_stage_short_circuit [OF m q n s u] t g by simp
qed

text \<open>
  C9: for every list of candidate campaign ids, the recommendation list computed from it
  is in descending order of \<open>ranking_score\<close>; every item carries the same \<open>reason\<close>;
  its score is the sum of \<open>engagement_count\<close> over the rows of its campaign; and the
  campaigns listed are the candidates that have a row, each once.
\<close>

theorem ranking_order:
  "sorted_wrt (\<lambda>a b. ranking_score b \<le> ranking_score a)
     (map annotate (fst (rank_campaigns_by_engagement campaign_ids w)))
   \<and> map reason (map annotate (fst (rank_campaigns_by_engagement campaign_ids w)))
       = replicate (length (fst (rank_campaigns_by_engagement campaign_ids w))) REASON
   \<and> map ranking_score (map annotate (fst (rank_campaigns_by_engagement campaign_ids w)))
       = map (\<lambda>r. total_engagement (sqlite w) (item_campaign_id r))
           (map annotate (fst (rank_campaigns_by_engagement campaign_ids w)))
   \<and> set (map item_campaign_id (map annotate (fst (rank_campaigns_by_engagement campaign_ids w))))
       = set campaign_ids \<inter> (\<lambda>r. fst (snd r)) ` set (sqlite w)
   \<and> distinct (map item_campaign_id
        (map annotate (fst (rank_campaigns_by_engagement campaign_ids w))))"
proof -
  let ?sel = "select_ranked campaign_ids (sqlite w)"
  have a: "sorted_wrt (\<lambda>a b. ranking_score b \<le> ranking_score a)
     (map annotate (fst (rank_campaigns_by_engagement campaign_ids w)))"
    using select_ranked_sorted [of campaign_ids "sqlite w"]
    by (simp add: rank_campaigns_by_engagement_fst sorted_wrt_map annotate_def)
  have b: "map reason (map annotate (fst (rank_campaigns_by_engagement campaign_ids w)))
       = replicate (length (fst (rank_campaigns_by_engagement campaign_ids w))) REASON"
    by (simp add: annotate_def o_def map_replicate_const)
  have c: "map ranking_score (map annotate (fst (rank_campaigns_by_engagement campaign_ids w)))
       = map (\<lambda>r. total_engagement (sqlite w) (item_campaign_id r))
           (map annotate (fst (rank_campaigns_by_engagement campaign_ids w)))"
    using select_ranked_score [of campaign_ids "sqlite w"]
    by (simp add: rank_campaigns_by_engagement_fst annotate_def o_def)
  have ids: "map item_campaign_id (map annotate (fst (rank_campaigns_by_engagement campaign_ids w)))
       = map fst ?sel"
    by (simp add: rank_campaigns_by_engagement_fst annotate_def o_def)
  have d: "set (map fst ?sel) = set campaign_ids \<inter> (\<lambda>r. fst (snd r)) ` set (sqlite w)"
    unfolding set_map select_ranked_set by (auto simp: image_image)
  show ?thesis
    using a b c d select_ranked_distinct [of campaign_ids "sqlite w"] unfolding ids by simp
qed

theorem ranking_order_witness:
  "map annotate (fst (rank_campaigns_by_engagement [''X'', ''Y''] ranking_world)) =
     [\<lparr>item_campaign_id = ''Y'', ranking_score = 5, reason = REASON\<rparr>,
      \<lparr>item_campaign_id = ''X'', ranking_score = 3, reason = REASON\<rparr>]
   \<and> sorted_wrt (\<lambda>a b. ranking_score b \<le> ranking_score a)
       (map annotate (fst (rank_campaigns_by_engagement [''X'', ''Y''] ranking_world)))
   \<and> map reason (map annotate (fst (rank_campaigns_by_engagement [''X'', ''Y''] ranking_world)))
       = [REASON, REASON]"
proof -
  have v: "map annotate (fst (rank_campaigns_by_engagement [''X'', ''Y''] ranking_world)) =
     [\<lparr>item_campaign_id = ''Y'', ranking_score = 5, reason = REASON\<rparr>,
      \<lparr>item_campaign_id = ''X'', ranking_score = 3, reason = REASON\<rparr>]"
    by (simp add: rank_campaigns_by_engagement_fst ranking_world_def ex_select_XY annotate_def)
  have l: "length (fst (rank_campaigns_by_engagement [''X'', ''Y''] ranking_world)) = 2"
    by (simp add: rank_campaigns_by_engagement_fst ranking_world_def ex_select_XY)
  show ?thesis
    using ranking_order [of "[''X'', ''Y'']" ranking_world] v l
    by (simp add: numeral_2_eq_2)
qed

text \<open>
  C10: on a cache miss (or failed read), when the user has a record and its message embeds
  to the empty vector, the request is answered 404 as for an unknown user, and Milvus is
  not searched.
\<close>

theorem empty_embedding_not_found:
  assumes "redis_get_fails e \<or> redis w (''rec:'' @ uid) = None"
    and "find (\<lambda>d. doc_user_id d = uid) (mongo w) = Some d"
    and "model_encode e (doc_message d) = Some []"
  shows "fst (get_recommendations e uid w) = Inl (HTTPException 404)
       \<and> trace (snd (get_recommendations e uid w)) =
           trace w @ (if redis_get_fails e then [] else [RedisGet (''rec:'' @ uid)])
             @ [MongoFindOne uid]"
  using assms
  by (auto simp: get_recommendations_def Let_def redis_get_def compute_recommendations_def
      get_user_query_vector_def
      split: prod.splits sum.splits option.splits)

theorem empty_embedding_not_found_witness:
  "''D'' \<in> set (map doc_user_id (mongo blank_world))
   \<and> fst (get_recommendations ex_env ''D'' blank_world) = Inl (HTTPException 404)
   \<and> trace (snd (get_recommendations ex_env ''D'' blank_world)) =
       [RedisGet ''rec:D'', MongoFindOne ''D'']"
proof -
  have f: "find (\<lambda>d. doc_user_id d = ''D'') (mongo blank_world) =
     Some \<lparr>doc_message_id = ''m4'', doc_user_id = ''D'',
       doc_campaign_id = ''X'', doc_timestamp = ''t4'', doc_intent = ''buy'',
       doc_message = []\<rparr>"
    by (simp add: blank_world_def)
  have r: "redis_get_fails ex_env \<or> redis blank_world (''rec:'' @ ''D'') = None"
    by (simp add: blank_world_def loaded_world_def)
  have m: "model_encode ex_env (doc_message \<lparr>doc_message_id = ''m4'', doc_user_id = ''D'',
       doc_campaign_id = ''X'', doc_timestamp = ''t4'', doc_intent = ''buy'',
       doc_message = []\<rparr>) = Some []"
    by (simp add: ex_env_def ex_encode_def)
  have t: "trace blank_world = []" "\<not> redis_get_fails ex_env"
    by (simp_all add: blank_world_def loaded_world_def ex_env_def)
  show ?thesis
    using empty_embedding_not_found [OF r f m] t by (simp add: blank_world_def)
qed



end
